theory Spec2Isabelle
  imports Main "HOL-Library.AList"
begin

section \<open>JavaScript values and objects\<close>

text \<open>
  The functions of \<^verbatim>\<open>packages/cli/src/utils/prompt.ts\<close> work on untyped JavaScript values
  (command arguments, options, answers). The value kinds that the code distinguishes
  (by \<^verbatim>\<open>=== undefined\<close>, by truthiness, by lodash's \<^verbatim>\<open>isEmpty\<close> and by
  \<^verbatim>\<open>typeof ... !== 'function'\<close>) are the constructors below. A function value is never
  called through a \<open>jsval\<close> by the code modelled here, so it is an opaque \<open>JFn\<close>.
  Numbers are integers (no NaN).
\<close>

datatype jsval =
    JUndefined
  | JNull
  | JBool bool
  | JNum int
  | JStr string
  | JArr "jsval list"
  | JObj "(string \<times> jsval) list"
  | JFn nat

text \<open>
  An object is the list of its own enumerable properties in \<^verbatim>\<open>Object.keys\<close> order.
  A well-formed object has no key twice. The objects of this module (\<^verbatim>\<open>args\<close>,
  \<^verbatim>\<open>opts\<close>, \<^verbatim>\<open>props\<close>, \<^verbatim>\<open>defaults\<close>, the answers) are plain objects: their
  prototype is \<^verbatim>\<open>Object.prototype\<close>.
\<close>

type_synonym jsobj = "(string \<times> jsval) list"

text \<open>
  The members that every plain object inherits from \<^verbatim>\<open>Object.prototype\<close>: eleven
  functions, and \<^verbatim>\<open>__proto__\<close>, which reads as \<^verbatim>\<open>Object.prototype\<close> itself, an object
  with no enumerable property. None of them is enumerable, so \<^verbatim>\<open>Object.keys\<close> and the
  spread never see them, and none has a property \<^verbatim>\<open>choices\<close>, \<^verbatim>\<open>default\<close> or
  \<^verbatim>\<open>normalize\<close>.
\<close>

definition object_prototype :: jsobj where
  "object_prototype =
     [(''constructor'', JFn 0), (''__defineGetter__'', JFn 1), (''__defineSetter__'', JFn 2),
      (''hasOwnProperty'', JFn 3), (''__lookupGetter__'', JFn 4), (''__lookupSetter__'', JFn 5),
      (''isPrototypeOf'', JFn 6), (''propertyIsEnumerable'', JFn 7), (''toString'', JFn 8),
      (''valueOf'', JFn 9), (''__proto__'', JObj []), (''toLocaleString'', JFn 10)]"

definition wf_obj :: "jsobj \<Rightarrow> bool" where
  "wf_obj obj = distinct (map fst obj)"

definition obj_keys :: "jsobj \<Rightarrow> string list" where
  "obj_keys obj = map fst obj"

text \<open>
  \<^verbatim>\<open>obj[k]\<close>: the own property, else the inherited member, else \<^verbatim>\<open>undefined\<close>.
\<close>

definition obj_get :: "jsobj \<Rightarrow> string \<Rightarrow> jsval" where
  "obj_get obj k =
     (case map_of obj k of
        Some v \<Rightarrow> v
      | None \<Rightarrow> (case map_of object_prototype k of None \<Rightarrow> JUndefined | Some v \<Rightarrow> v))"

text \<open>
  \<^verbatim>\<open>obj[k] = v\<close>: an existing property keeps its place, a new one is appended (the keys
  here are parameter names, not array indices).
\<close>

definition obj_set :: "jsobj \<Rightarrow> string \<Rightarrow> jsval \<Rightarrow> jsobj" where
  "obj_set obj k v = AList.update k v obj"

text \<open>\<^verbatim>\<open>{ ...a, ...b }\<close>: the properties of \<open>a\<close>, then those of \<open>b\<close> assigned over them.\<close>

definition spread :: "jsobj \<Rightarrow> jsobj \<Rightarrow> jsobj" where
  "spread a b = fold (\<lambda>(k, v) acc. obj_set acc k v) b a"

text \<open>JavaScript truthiness (\<^verbatim>\<open>!x\<close>, \<^verbatim>\<open>x && y\<close>, \<^verbatim>\<open>x || y\<close>, \<^verbatim>\<open>c ? a : b\<close>).\<close>

fun truthy :: "jsval \<Rightarrow> bool" where
  "truthy JUndefined = False"
| "truthy JNull = False"
| "truthy (JBool b) = b"
| "truthy (JNum n) = (n \<noteq> 0)"
| "truthy (JStr s) = (s \<noteq> [])"
| "truthy (JArr xs) = True"
| "truthy (JObj ps) = True"
| "truthy (JFn f) = True"

text \<open>\<^verbatim>\<open>a || b\<close> on values.\<close>

definition js_or :: "jsval \<Rightarrow> jsval \<Rightarrow> jsval" where
  "js_or a b = (if truthy a then a else b)"

text \<open>
  lodash \<^verbatim>\<open>isEmpty\<close>: \<^verbatim>\<open>null\<close> and \<^verbatim>\<open>undefined\<close> are empty; an array or a string is
  empty when its length is 0; any other value is empty when it has no own enumerable
  property, which holds of every boolean, number and (plain) function.
\<close>

fun isEmpty :: "jsval \<Rightarrow> bool" where
  "isEmpty JUndefined = True"
| "isEmpty JNull = True"
| "isEmpty (JBool b) = True"
| "isEmpty (JNum n) = True"
| "isEmpty (JStr s) = (s = [])"
| "isEmpty (JArr xs) = (xs = [])"
| "isEmpty (JObj ps) = (ps = [])"
| "isEmpty (JFn f) = True"

fun is_function :: "jsval \<Rightarrow> bool" where
  "is_function (JFn f) = True"
| "is_function v = False"

section \<open>The parameter resolver: \<^verbatim>\<open>promptIfNeeded\<close>\<close>

text \<open>A thrown \<^verbatim>\<open>TypeError\<close> (a property read on \<^verbatim>\<open>undefined\<close>) and a rejected prompt round.\<close>

datatype error = TypeError | PromptFailed

text \<open>
  An entry of \<^verbatim>\<open>props\<close>: the inquirer question values of one name, as
  \<^verbatim>\<open>inquirerQuestion\<close> and the commands build them (\<^verbatim>\<open>type\<close>, \<^verbatim>\<open>message\<close>,
  \<^verbatim>\<open>choices\<close>), with the optional \<^verbatim>\<open>default\<close> and \<^verbatim>\<open>normalize\<close> that
  \<^verbatim>\<open>promptFor\<close> and \<^verbatim>\<open>answersFor\<close> read. An absent field is \<open>JUndefined\<close>, an absent
  \<^verbatim>\<open>normalize\<close> is \<open>None\<close>. \<^verbatim>\<open>normalize\<close> is a pure transform of the value. An entry
  may also have a \<^verbatim>\<open>name\<close> or an \<^verbatim>\<open>isInquirerQuestion\<close> of its own (\<open>None\<close> when it
  has none), which the spread in \<^verbatim>\<open>promptFor\<close> copies over the ones that
  \<^verbatim>\<open>promptFor\<close> sets.
\<close>

record question_spec =
  spec_name :: "string option"
  spec_isInquirerQuestion :: "bool option"
  spec_type :: jsval
  spec_message :: jsval
  spec_choices :: jsval
  spec_default :: jsval
  spec_normalize :: "(jsval \<Rightarrow> jsval) option"

type_synonym props = "string \<rightharpoonup> question_spec"

text \<open>The object that \<^verbatim>\<open>promptFor\<close> returns.\<close>

record question =
  isInquirerQuestion :: bool
  q_name :: string
  q_type :: jsval
  q_message :: jsval
  q_choices :: jsval
  q_normalize :: "(jsval \<Rightarrow> jsval) option"
  q_default :: jsval

text \<open>
  \<^verbatim>\<open>interface PromptParams { args?: {}; opts?: {}; props?: {}; defaults?: {} }\<close>:
  every field may be omitted (\<open>None\<close>).
\<close>

record prompt_params =
  args :: "jsobj option"
  opts :: "jsobj option"
  props :: "props option"
  defaults :: "jsobj option"

text \<open>The module-level state: \<^verbatim>\<open>export let DEFAULT_INTERACTIVE_STATUS = true\<close>.\<close>

record module_state =
  DEFAULT_INTERACTIVE_STATUS :: bool

definition initial_module_state :: module_state where
  "initial_module_state = \<lparr> DEFAULT_INTERACTIVE_STATUS = True \<rparr>"

text \<open>
  What \<^verbatim>\<open>props[name]\<close> is when \<^verbatim>\<open>props\<close> has no own entry for the name but inherits a
  member of that name: a function (or \<^verbatim>\<open>Object.prototype\<close>), on which every field that
  this module reads is undefined and whose spread copies nothing.
\<close>

definition inherited_entry :: question_spec where
  "inherited_entry =
     \<lparr> spec_name = None, spec_isInquirerQuestion = None, spec_type = JUndefined,
       spec_message = JUndefined, spec_choices = JUndefined, spec_default = JUndefined,
       spec_normalize = None \<rparr>"

text \<open>
  \<^verbatim>\<open>props[name]\<close> followed by a property read or a destructuring: a \<^verbatim>\<open>TypeError\<close> when
  \<^verbatim>\<open>props\<close> is undefined, or has no own entry for the name and inherits none.
\<close>

definition props_at :: "props option \<Rightarrow> string \<Rightarrow> error + question_spec" where
  "props_at ps name =
     (case ps of
        None \<Rightarrow> Inl TypeError
      | Some p \<Rightarrow>
          (case p name of
             Some s \<Rightarrow> Inr s
           | None \<Rightarrow>
               if name \<in> set (obj_keys object_prototype) then Inr inherited_entry
               else Inl TypeError))"

text \<open>
  \<^verbatim>\<open>function hasEmptyChoices({ choices }) {
    return choices && isEmpty(choices) && typeof choices !== 'function'; }\<close>
  read as a condition.
\<close>

definition hasEmptyChoices :: "question_spec \<Rightarrow> bool" where
  "hasEmptyChoices s =
     (truthy (spec_choices s) \<and> isEmpty (spec_choices s) \<and> \<not> is_function (spec_choices s))"

text \<open>
  \<^verbatim>\<open>function promptFor(name, defaults, props) {
    const defaultValue = defaults ? defaults[name] : undefined;
    return { isInquirerQuestion: true, name, ...props[name],
             default: defaultValue || props[name].default }; }\<close>
  The spread comes after \<^verbatim>\<open>isInquirerQuestion\<close> and \<^verbatim>\<open>name\<close>, so the entry's own ones
  win; \<^verbatim>\<open>default\<close> comes after the spread.
\<close>

definition promptFor :: "string \<Rightarrow> jsobj option \<Rightarrow> props option \<Rightarrow> error + question" where
  "promptFor name dflts ps =
     (let defaultValue = (case dflts of None \<Rightarrow> JUndefined | Some d \<Rightarrow> obj_get d name)
      in case props_at ps name of
           Inl e \<Rightarrow> Inl e
         | Inr s \<Rightarrow> Inr \<lparr> isInquirerQuestion =
                            (case spec_isInquirerQuestion s of None \<Rightarrow> True | Some b \<Rightarrow> b),
                          q_name = (case spec_name s of None \<Rightarrow> name | Some n \<Rightarrow> n),
                          q_type = spec_type s, q_message = spec_message s,
                          q_choices = spec_choices s, q_normalize = spec_normalize s,
                          q_default = js_or defaultValue (spec_default s) \<rparr>)"

text \<open>\<^verbatim>\<open>.filter(name => !hasEmptyChoices(props[name]))\<close>, stopping at the first throw.\<close>

fun filterChoices :: "props option \<Rightarrow> string list \<Rightarrow> error + string list" where
  "filterChoices ps [] = Inr []"
| "filterChoices ps (name # names) =
     (case props_at ps name of
        Inl e \<Rightarrow> Inl e
      | Inr s \<Rightarrow>
          (case filterChoices ps names of
             Inl e \<Rightarrow> Inl e
           | Inr rest \<Rightarrow> Inr (if hasEmptyChoices s then rest else name # rest)))"

text \<open>\<^verbatim>\<open>.map(name => promptFor(name, defaults, props))\<close>, stopping at the first throw.\<close>

fun mapPromptFor :: "jsobj option \<Rightarrow> props option \<Rightarrow> string list \<Rightarrow> error + question list" where
  "mapPromptFor dflts ps [] = Inr []"
| "mapPromptFor dflts ps (name # names) =
     (case promptFor name dflts ps of
        Inl e \<Rightarrow> Inl e
      | Inr q \<Rightarrow>
          (case mapPromptFor dflts ps names of
             Inl e \<Rightarrow> Inl e
           | Inr qs \<Rightarrow> Inr (q # qs)))"

text \<open>The destructuring defaults \<^verbatim>\<open>{ args = {}, opts = {}, defaults, props }\<close>.\<close>

definition argsOf :: "prompt_params \<Rightarrow> jsobj" where
  "argsOf params = (case args params of None \<Rightarrow> [] | Some a \<Rightarrow> a)"

definition optsOf :: "prompt_params \<Rightarrow> jsobj" where
  "optsOf params = (case opts params of None \<Rightarrow> [] | Some a \<Rightarrow> a)"

text \<open>
  \<^verbatim>\<open>const argsQuestions = Object.keys(args)
    .filter(argName => args[argName] === undefined || isEmpty(args[argName]))
    .filter(argName => !hasEmptyChoices(props[argName]))
    .map(argName => promptFor(argName, defaults, props));\<close>
\<close>

definition unsetArgs :: "prompt_params \<Rightarrow> string list" where
  "unsetArgs params =
     filter (\<lambda>argName. obj_get (argsOf params) argName = JUndefined
                        \<or> isEmpty (obj_get (argsOf params) argName))
       (obj_keys (argsOf params))"

definition argsQuestions :: "prompt_params \<Rightarrow> error + question list" where
  "argsQuestions params =
     (case filterChoices (props params) (unsetArgs params) of
        Inl e \<Rightarrow> Inl e
      | Inr names \<Rightarrow> mapPromptFor (defaults params) (props params) names)"

text \<open>
  \<^verbatim>\<open>const optsQuestions = Object.keys(opts)
    .filter(optName => opts[optName] === undefined)
    .filter(optName => !hasEmptyChoices(props[optName]))
    .map(optName => promptFor(optName, defaults, props));\<close>
\<close>

definition unsetOpts :: "prompt_params \<Rightarrow> string list" where
  "unsetOpts params =
     filter (\<lambda>optName. obj_get (optsOf params) optName = JUndefined) (obj_keys (optsOf params))"

definition optsQuestions :: "prompt_params \<Rightarrow> error + question list" where
  "optsQuestions params =
     (case filterChoices (props params) (unsetOpts params) of
        Inl e \<Rightarrow> Inl e
      | Inr names \<Rightarrow> mapPromptFor (defaults params) (props params) names)"

text \<open>
  Modelled from the spec: \<^verbatim>\<open>inquirer.prompt(questions)\<close> is a library, not among the
  sources. The spec (external interfaces, interactive-input primitive): given an ordered
  sequence of QuestionSpecs, returns one answer value per spec, in one batched round; may
  fail if the input source is unavailable. The answers come back as an object, each under
  the name of its question. The person at the terminal is the parameter \<open>user\<close>: the
  answer to a question given the answers so far, \<open>None\<close> when the round fails there.
\<close>

type_synonym user = "jsobj \<Rightarrow> question \<Rightarrow> jsval option"

fun inquirer_prompt :: "user \<Rightarrow> jsobj \<Rightarrow> question list \<Rightarrow> error + jsobj" where
  "inquirer_prompt u answers [] = Inr answers"
| "inquirer_prompt u answers (q # qs) =
     (case u answers q of
        None \<Rightarrow> Inl PromptFailed
      | Some v \<Rightarrow> inquirer_prompt u (obj_set answers (q_name q) v) qs)"

text \<open>
  \<^verbatim>\<open>Object.keys(merged).forEach(propName => {
    if (props[propName].normalize)
      merged[propName] = props[propName].normalize(merged[propName]); });\<close>
  over the keys that \<^verbatim>\<open>merged\<close> has when the loop starts.
\<close>

fun normalizeEach :: "props option \<Rightarrow> string list \<Rightarrow> jsobj \<Rightarrow> error + jsobj" where
  "normalizeEach ps [] merged = Inr merged"
| "normalizeEach ps (propName # rest) merged =
     (case props_at ps propName of
        Inl e \<Rightarrow> Inl e
      | Inr s \<Rightarrow>
          normalizeEach ps rest
            (case spec_normalize s of
               None \<Rightarrow> merged
             | Some f \<Rightarrow> obj_set merged propName (f (obj_get merged propName))))"

text \<open>
  \<^verbatim>\<open>async function answersFor(inputs, questions, props, interactive) {
    const merged = interactive ? { ...inputs, ...await inquirer.prompt(questions) } : inputs;
    Object.keys(merged).forEach(...);
    return merged; }\<close>
  Without prompting \<^verbatim>\<open>merged\<close> is the caller's \<^verbatim>\<open>inputs\<close> object itself, which the loop
  then updates in place; the model returns the updated object, which is all that
  \<^verbatim>\<open>promptIfNeeded\<close> uses.
\<close>

definition answersFor ::
  "user \<Rightarrow> jsobj \<Rightarrow> question list \<Rightarrow> props option \<Rightarrow> bool \<Rightarrow> error + jsobj" where
  "answersFor u inputs questions ps interactive =
     (case (if interactive
            then (case inquirer_prompt u [] questions of
                    Inl e \<Rightarrow> Inl e
                  | Inr answers \<Rightarrow> Inr (spread inputs answers))
            else Inr inputs) of
        Inl e \<Rightarrow> Inl e
      | Inr merged \<Rightarrow> normalizeEach ps (obj_keys merged) merged)"

text \<open>
  \<^verbatim>\<open>export async function promptIfNeeded({ args = {}, opts = {}, defaults, props },
                                        interactive?: boolean): Promise<any> {
    interactive = typeof interactive === 'undefined' ? DEFAULT_INTERACTIVE_STATUS : interactive;
    const argsQuestions = ...; const optsQuestions = ...;
    return { ...await answersFor(args, argsQuestions, props, interactive),
             ...await answersFor(opts, optsQuestions, props, interactive) }; }\<close>
  The result is \<open>Inl\<close> when the call throws or the promise is rejected.
\<close>

definition promptIfNeeded ::
  "module_state \<Rightarrow> user \<Rightarrow> prompt_params \<Rightarrow> bool option \<Rightarrow> error + jsobj" where
  "promptIfNeeded st u params interactive =
     (let isInteractive = (case interactive of None \<Rightarrow> DEFAULT_INTERACTIVE_STATUS st | Some b \<Rightarrow> b)
      in case argsQuestions params of
           Inl e \<Rightarrow> Inl e
         | Inr aqs \<Rightarrow>
             (case optsQuestions params of
                Inl e \<Rightarrow> Inl e
              | Inr oqs \<Rightarrow>
                  (case answersFor u (argsOf params) aqs (props params) isInteractive of
                     Inl e \<Rightarrow> Inl e
                   | Inr fromArgs \<Rightarrow>
                       (case answersFor u (optsOf params) oqs (props params) isInteractive of
                          Inl e \<Rightarrow> Inl e
                        | Inr fromOpts \<Rightarrow> Inr (spread fromArgs fromOpts)))))"

text \<open>
  The value that a name ends with when nothing is prompted for it: its supplied value
  after the name's \<^verbatim>\<open>normalize\<close> transform, when its entry declares one.
\<close>

definition apply_normalize :: "props option \<Rightarrow> string \<Rightarrow> jsval \<Rightarrow> jsval" where
  "apply_normalize ps name v =
     (case props_at ps name of
        Inl e \<Rightarrow> v
      | Inr s \<Rightarrow> (case spec_normalize s of None \<Rightarrow> v | Some f \<Rightarrow> f v))"


text \<open>
  The names that are asked: the unset names whose entry has no empty choices. The question
  of an asked name carries the entry's own \<^verbatim>\<open>name\<close> when it has one, the asked name
  otherwise.
\<close>

definition asked :: "props option \<Rightarrow> string list \<Rightarrow> string list" where
  "asked ps names =
     filter (\<lambda>name. case props_at ps name of Inl e \<Rightarrow> True | Inr s \<Rightarrow> \<not> hasEmptyChoices s) names"

definition question_name :: "props option \<Rightarrow> string \<Rightarrow> string" where
  "question_name ps name =
     (case props_at ps name of
        Inl e \<Rightarrow> name
      | Inr s \<Rightarrow> (case spec_name s of None \<Rightarrow> name | Some n \<Rightarrow> n))"

subsection \<open>The command \<^verbatim>\<open>unlink\<close>\<close>

text \<open>
  \<^verbatim>\<open>function setCommandProps(depNames: string[]): InquirerQuestions {
    return { dependencies: { message: 'Select the dependencies you want to unlink',
                             type: 'checkbox', choices: depNames } }; }\<close>
  of \<^verbatim>\<open>packages/cli/src/commands/unlink.ts\<close>.
\<close>

definition setCommandProps :: "string list \<Rightarrow> props" where
  "setCommandProps depNames =
     [''dependencies'' \<mapsto>
        \<lparr> spec_name = None, spec_isInquirerQuestion = None,
          spec_type = JStr ''checkbox'',
          spec_message = JStr ''Select the dependencies you want to unlink'',
          spec_choices = JArr (map JStr depNames),
          spec_default = JUndefined,
          spec_normalize = None \<rparr>]"

text \<open>
  What the action of \<^verbatim>\<open>unlink\<close> passes to \<^verbatim>\<open>promptIfNeeded\<close>:
  \<^verbatim>\<open>const args = { dependencies }; const props = setCommandProps(installedDependencies);
  const prompted = await promptIfNeeded({ args, props }, interactive);\<close>
\<close>

definition unlink_params :: "jsval \<Rightarrow> string list \<Rightarrow> prompt_params" where
  "unlink_params deps installedDependencies =
     \<lparr> args = Some [(''dependencies'', deps)], opts = None,
       props = Some (setCommandProps installedDependencies), defaults = None \<rparr>"

section \<open>The proxy resolver: \<^verbatim>\<open>proxyInfo\<close>\<close>

text \<open>
  A string that may be \<^verbatim>\<open>undefined\<close> is a \<open>string option\<close>; it is truthy when it is a
  non-empty string.
\<close>

definition truthy_str :: "string option \<Rightarrow> bool" where
  "truthy_str x = (case x of None \<Rightarrow> False | Some s \<Rightarrow> s \<noteq> [])"

text \<open>\<^verbatim>\<open>a || b\<close> on strings that may be undefined.\<close>

definition str_or :: "string option \<Rightarrow> string option \<Rightarrow> string option" where
  "str_or a b = (if truthy_str a then a else b)"

text \<open>\<^verbatim>\<open>const { contractAlias, proxyAddress, packageName } = contractInfo;\<close>\<close>

record contract_info =
  contractAlias :: "string option"
  proxyAddress :: "string option"
  packageName :: "string option"

text \<open>\<^verbatim>\<open>const proxyParams = { contract: contractAlias, address: proxyAddress, package: packageName };\<close>\<close>

record proxy_query =
  pq_contract :: "string option"
  pq_address :: "string option"
  pq_package :: "string option"

text \<open>A proxy of a network file: \<^verbatim>\<open>{ package, contract, address }\<close>.\<close>

record proxy_record =
  proxy_package :: string
  proxy_contract :: string
  proxy_address :: string

text \<open>
  The network file that \<^verbatim>\<open>new ZosPackageFile().networkFile(network)\<close> returns, by the two
  methods that \<^verbatim>\<open>proxyInfo\<close> calls on it. The class is not part of the sources at hand, so
  the object is a parameter.
\<close>

record network_file =
  hasProxies :: "proxy_query \<Rightarrow> bool"
  getProxies :: "proxy_query \<Rightarrow> proxy_record list"

text \<open>The object that \<^verbatim>\<open>proxyInfo\<close> returns; a key that the object lacks is \<open>None\<close>.\<close>

record proxy_info =
  contractFullName :: "string option"
  address :: "string option"
  proxyReference :: "string option"

text \<open>
  \<^verbatim>\<open>export function proxyInfo(contractInfo: any, network: string): any\<close>, with
  \<^verbatim>\<open>toContractFullName\<close> (of \<^verbatim>\<open>utils/naming\<close>) and the network files as parameters.
  \<^verbatim>\<open>const proxy = proxies[0] || {}\<close> has undefined fields when the list is empty.
\<close>

definition proxyInfo ::
  "(string option \<Rightarrow> string option \<Rightarrow> string option) \<Rightarrow> (string \<Rightarrow> network_file)
     \<Rightarrow> contract_info \<Rightarrow> string \<Rightarrow> proxy_info" where
  "proxyInfo toFullName networkFile contractInfo network =
     (let nf = networkFile network;
          proxyParams = \<lparr> pq_contract = contractAlias contractInfo,
                          pq_address = proxyAddress contractInfo,
                          pq_package = packageName contractInfo \<rparr>
      in if \<not> truthy_str (proxyAddress contractInfo) \<and> \<not> truthy_str (contractAlias contractInfo)
         then \<lparr> contractFullName = None, address = None, proxyReference = None \<rparr>
         else if \<not> hasProxies nf proxyParams
         then (let fullName = toFullName (packageName contractInfo) (contractAlias contractInfo)
               in \<lparr> contractFullName = fullName, address = None,
                    proxyReference = str_or (proxyAddress contractInfo) fullName \<rparr>)
         else (case getProxies nf proxyParams of
                 [] \<Rightarrow>
                   (let fullName = toFullName None None
                    in \<lparr> contractFullName = fullName, address = None,
                         proxyReference = str_or (proxyAddress contractInfo) fullName \<rparr>)
               | proxy # others \<Rightarrow>
                   (let fullName = toFullName (Some (proxy_package proxy))
                                              (Some (proxy_contract proxy))
                    in \<lparr> contractFullName = fullName, address = Some (proxy_address proxy),
                         proxyReference = str_or (proxyAddress contractInfo) fullName \<rparr>)))"

text \<open>
  Modelled from the spec: \<^verbatim>\<open>toContractFullName\<close> of \<^verbatim>\<open>utils/naming\<close> is not among the
  sources. The spec (data model, ContractFullName): a canonical identity composed of an
  optional package name and a required contract alias, serialized as \<^verbatim>\<open>package/alias\<close>
  when the package differs from the local project, or bare \<^verbatim>\<open>alias\<close> otherwise. The name
  of the local project is the first argument. The spec does not say what an absent alias
  gives; the model gives undefined.
\<close>

definition toContractFullName :: "string \<Rightarrow> string option \<Rightarrow> string option \<Rightarrow> string option" where
  "toContractFullName localName pkg alias =
     (case alias of
        None \<Rightarrow> None
      | Some a \<Rightarrow>
          (case pkg of
             None \<Rightarrow> Some a
           | Some p \<Rightarrow> if p = localName then Some a else Some (p @ ''/'' @ a)))"

text \<open>
  Modelled from the spec: the network file class is not among the sources. The spec (data
  model, ProxyQuery): a partial filter \<^verbatim>\<open>{contract?, address?, package?}\<close> used to search
  ProxyRecords; an empty query matches all records. A record matches when it agrees with
  every field that the query gives.
\<close>

definition proxy_matches :: "proxy_query \<Rightarrow> proxy_record \<Rightarrow> bool" where
  "proxy_matches q r =
     ((case pq_contract q of None \<Rightarrow> True | Some c \<Rightarrow> proxy_contract r = c) \<and>
      (case pq_address q of None \<Rightarrow> True | Some a \<Rightarrow> proxy_address r = a) \<and>
      (case pq_package q of None \<Rightarrow> True | Some p \<Rightarrow> proxy_package r = p))"

text \<open>
  Modelled from the spec: the network file of a network with the given ProxyRecords, in
  record order (network-state accessor: given a network identifier, returns the persisted
  set of ProxyRecords for that network).
\<close>

definition network_file_of :: "proxy_record list \<Rightarrow> network_file" where
  "network_file_of records =
     \<lparr> hasProxies = (\<lambda>q. filter (proxy_matches q) records \<noteq> []),
       getProxies = (\<lambda>q. filter (proxy_matches q) records) \<rparr>"

section \<open>The catalog builder\<close>

text \<open>
  An element of a \<^verbatim>\<open>choices\<close> array: \<^verbatim>\<open>new inquirer.Separator(line)\<close>, a plain string, or
  \<^verbatim>\<open>{ name: label, value: alias }\<close>.
\<close>

datatype choice =
    Separator string
  | Choice string
  | NamedChoice string string

record inquirer_question =
  iq_type :: string
  iq_message :: string
  iq_choices :: "choice list"

text \<open>
  What \<^verbatim>\<open>contractsList\<close> returns: the object \<^verbatim>\<open>{ [name]: { type, message, choices } }\<close> of
  \<^verbatim>\<open>inquirerQuestion\<close>, or the empty array \<^verbatim>\<open>[]\<close>.
\<close>

datatype questions =
    QuestionObject string inquirer_question
  | EmptyArray

definition inquirerQuestion :: "string \<Rightarrow> string \<Rightarrow> string \<Rightarrow> choice list \<Rightarrow> questions" where
  "inquirerQuestion name message type choices =
     QuestionObject name \<lparr> iq_type = type, iq_message = message, iq_choices = choices \<rparr>"

text \<open>
  What \<^verbatim>\<open>contractsList\<close> reads from its collaborators, which are not among the sources:
  \<^verbatim>\<open>Truffle.getContractNames()\<close>, \<^verbatim>\<open>localPackageFile.contractNamesAndAliases\<close> (pairs of
  name and alias), \<^verbatim>\<open>Object.keys(localPackageFile.dependencies)\<close> and, for a dependency
  name, \<^verbatim>\<open>new Dependency(dependencyName).getPackageFile().contractAliases\<close>.
\<close>

record catalog_sources =
  getContractNames :: "string list"
  contractNamesAndAliases :: "(string \<times> string) list"
  dependencies :: "string list"
  contractAliases :: "string \<Rightarrow> string list"

text \<open>
  \<^verbatim>\<open>export function contractsList(name, message, type, source?: string)\<close>.
  \<^verbatim>\<open>unshift\<close> puts the separator in front; \<^verbatim>\<open>flatten\<close> of the per-dependency arrays is
  their concatenation.
\<close>

definition contractsList ::
  "catalog_sources \<Rightarrow> string \<Rightarrow> string \<Rightarrow> string \<Rightarrow> string option \<Rightarrow> questions" where
  "contractsList src name message type source =
     (let contractsFromBuild = map Choice (getContractNames src)
      in if \<not> truthy_str source \<or> source = Some ''fromBuildDir''
         then inquirerQuestion name message type contractsFromBuild
         else if source = Some ''fromLocal''
         then (let contractsFromLocal =
                     map (\<lambda>(contractName, alias).
                            NamedChoice
                              (if contractName = alias then alias
                               else alias @ ''['' @ contractName @ '']'')
                              alias)
                       (contractNamesAndAliases src)
               in inquirerQuestion name message type contractsFromLocal)
         else if source = Some ''all''
         then (let packageContracts =
                     map (\<lambda>dependencyName.
                            let contractNames =
                                  map (\<lambda>contractName. Choice (dependencyName @ ''/'' @ contractName))
                                    (contractAliases src dependencyName)
                            in if length contractNames > 0
                               then Separator ('' = '' @ dependencyName @ '' ='') # contractNames
                               else contractNames)
                       (dependencies src);
                   fromBuild =
                     (if length contractsFromBuild > 0
                      then Separator '' = Local contracts ='' # contractsFromBuild
                      else contractsFromBuild)
               in inquirerQuestion name message type (fromBuild @ concat packageContracts))
         else EmptyArray)"










text \<open>
  The sections of the \<^verbatim>\<open>all\<close> listing, in the words of the spec: a section is its
  contracts under a separator with the section's label, and a section with zero contracts
  contributes nothing, not even the separator.
\<close>

definition choices_section :: "string \<Rightarrow> string list \<Rightarrow> choice list" where
  "choices_section label names =
     (if names = [] then [] else Separator ('' = '' @ label @ '' ='') # map Choice names)"


section \<open>Example data\<close>


text \<open>No build artifact, and one linked dependency \<^verbatim>\<open>dep1\<close> with the contracts A and B.\<close>

definition dep1_sources :: catalog_sources where
  "dep1_sources =
     \<lparr> getContractNames = [], contractNamesAndAliases = [],
       dependencies = [''dep1''],
       contractAliases = (\<lambda>d. if d = ''dep1'' then [''A'', ''B''] else []) \<rparr>"

text \<open>A network with one proxy, of the contract \<^verbatim>\<open>Foo\<close> of the project \<^verbatim>\<open>local\<close>.\<close>

definition foo_records :: "proxy_record list" where
  "foo_records =
     [\<lparr> proxy_package = ''local'', proxy_contract = ''Foo'', proxy_address = ''0xAA'' \<rparr>]"

text \<open>A person who selects \<^verbatim>\<open>dep1\<close> in every checkbox, and an input source that is closed.\<close>

definition picks_dep1 :: user where
  "picks_dep1 = (\<lambda>answers q. Some (JArr [JStr ''dep1'']))"

definition no_input :: user where
  "no_input = (\<lambda>answers q. None)"

text \<open>A person who answers \<^verbatim>\<open>ropsten\<close> to every question.\<close>

definition answers_ropsten :: user where
  "answers_ropsten = (\<lambda>answers q. Some (JStr ''ropsten''))"

text \<open>
  A command with the argument \<^verbatim>\<open>contract\<close>, whose list of choices is empty and whose
  \<^verbatim>\<open>normalize\<close> is \<^verbatim>\<open>input => input || 'none'\<close>, and the option \<^verbatim>\<open>network\<close>, whose
  \<^verbatim>\<open>normalize\<close> is \<^verbatim>\<open>input => [input]\<close>.
\<close>

definition deploy_props :: props where
  "deploy_props =
     [''contract'' \<mapsto>
        \<lparr> spec_name = None, spec_isInquirerQuestion = None,
          spec_type = JStr ''list'', spec_message = JStr ''Pick a contract'',
          spec_choices = JArr [], spec_default = JUndefined,
          spec_normalize = Some (\<lambda>input. js_or input (JStr ''none'')) \<rparr>,
      ''network'' \<mapsto>
        \<lparr> spec_name = None, spec_isInquirerQuestion = None,
          spec_type = JStr ''list'', spec_message = JStr ''Select a network'',
          spec_choices = JArr [JStr ''mainnet'', JStr ''ropsten''], spec_default = JUndefined,
          spec_normalize = Some (\<lambda>input. JArr [input]) \<rparr>]"

definition deploy_params :: "jsval \<Rightarrow> jsval \<Rightarrow> prompt_params" where
  "deploy_params contract network =
     \<lparr> args = Some [(''contract'', contract)], opts = Some [(''network'', network)],
       props = Some deploy_props, defaults = None \<rparr>"

text \<open>
  A call whose only argument is named \<^verbatim>\<open>toString\<close>, with a \<^verbatim>\<open>props\<close> object that has
  no entry at all.
\<close>

definition toString_params :: prompt_params where
  "toString_params =
     \<lparr> args = Some [(''toString'', JStr ''x'')], opts = None,
       props = Some Map.empty, defaults = None \<rparr>"

text \<open>
  Two arguments, both unset: \<^verbatim>\<open>a\<close>, whose list of choices is empty, and \<^verbatim>\<open>b\<close>, whose
  entry has the \<^verbatim>\<open>name\<close> \<^verbatim>\<open>a\<close> of its own.
\<close>

definition renaming_params :: prompt_params where
  "renaming_params =
     \<lparr> args = Some [(''a'', JUndefined), (''b'', JUndefined)], opts = None,
       props = Some
         [''a'' \<mapsto>
            \<lparr> spec_name = None, spec_isInquirerQuestion = None,
              spec_type = JStr ''list'', spec_message = JStr ''Pick a'',
              spec_choices = JArr [], spec_default = JUndefined, spec_normalize = None \<rparr>,
          ''b'' \<mapsto>
            \<lparr> spec_name = Some ''a'', spec_isInquirerQuestion = None,
              spec_type = JStr ''input'', spec_message = JStr ''Enter b'',
              spec_choices = JUndefined, spec_default = JUndefined, spec_normalize = None \<rparr>],
       defaults = None \<rparr>"


section \<open>Properties of the parameter resolver\<close>

subsection \<open>Facts about objects\<close>

lemma obj_get_obj_set: "obj_get (obj_set obj k v) k' = (if k' = k then v else obj_get obj k')"
  by (simp add: obj_get_def obj_set_def update_conv')

lemma obj_get_own: "map_of obj k = Some v \<Longrightarrow> obj_get obj k = v"
  by (simp add: obj_get_def)

lemma obj_get_Cons:
  "obj_get ((k', v) # obj) k = (if k = k' then v else obj_get obj k)"
  by (simp add: obj_get_def)

lemma set_keys_obj_set: "set (obj_keys (obj_set obj k v)) = insert k (set (obj_keys obj))"
  using dom_update[of k v obj] by (simp add: obj_keys_def obj_set_def)

lemma keys_obj_set_same: "k \<in> set (obj_keys obj) \<Longrightarrow> obj_keys (obj_set obj k v) = obj_keys obj"
  by (simp add: obj_keys_def obj_set_def update_keys)

lemma wf_obj_set: "wf_obj obj \<Longrightarrow> wf_obj (obj_set obj k v)"
  by (simp add: wf_obj_def obj_set_def distinct_update)

lemma spread_Nil: "spread a [] = a"
  by (simp add: spread_def)

lemma spread_Cons: "spread a ((k, v) # b) = spread (obj_set a k v) b"
  by (simp add: spread_def)

lemma set_keys_spread: "set (obj_keys (spread a b)) = set (obj_keys a) \<union> set (obj_keys b)"
proof (induction b arbitrary: a)
  case Nil
  show ?case by (simp add: spread_Nil obj_keys_def)
next
  case (Cons p b)
  obtain k v where p: "p = (k, v)" by (cases p)
  have "set (obj_keys (spread a (p # b))) = set (obj_keys (obj_set a k v)) \<union> set (obj_keys b)"
    by (simp add: p spread_Cons Cons.IH)
  also have "\<dots> = insert k (set (obj_keys a)) \<union> set (obj_keys b)"
    by (simp only: set_keys_obj_set)
  also have "\<dots> = set (obj_keys a) \<union> insert k (set (obj_keys b))"
    by blast
  also have "insert k (set (obj_keys b)) = set (obj_keys (p # b))"
    by (simp add: p obj_keys_def)
  finally show ?case .
qed

lemma wf_spread: "wf_obj a \<Longrightarrow> wf_obj (spread a b)"
proof (induction b arbitrary: a)
  case Nil
  then show ?case by (simp add: spread_Nil)
next
  case (Cons p b)
  obtain k v where p: "p = (k, v)" by (cases p)
  from Cons.prems have "wf_obj (obj_set a k v)" by (rule wf_obj_set)
  then show ?case by (simp add: p spread_Cons Cons.IH)
qed

lemma obj_get_spread_left:
  "k \<notin> set (obj_keys b) \<Longrightarrow> obj_get (spread a b) k = obj_get a k"
proof (induction b arbitrary: a)
  case Nil
  show ?case by (simp add: spread_Nil)
next
  case (Cons p b)
  obtain k' v where p: "p = (k', v)" by (cases p)
  from Cons.prems have ne: "k \<noteq> k'" and nb: "k \<notin> set (obj_keys b)"
    by (auto simp: p obj_keys_def)
  show ?case
    by (simp add: p spread_Cons Cons.IH[OF nb] obj_get_obj_set ne)
qed

lemma obj_get_spread_right:
  "wf_obj b \<Longrightarrow> k \<in> set (obj_keys b) \<Longrightarrow> obj_get (spread a b) k = obj_get b k"
proof (induction b arbitrary: a)
  case Nil
  then show ?case by (simp add: obj_keys_def)
next
  case (Cons p b)
  obtain k' v where p: "p = (k', v)" by (cases p)
  from Cons.prems(1) have wfb: "wf_obj b" and fresh: "k' \<notin> set (obj_keys b)"
    by (auto simp: p wf_obj_def obj_keys_def)
  show ?case
  proof (cases "k = k'")
    case True
    then have "obj_get (spread a (p # b)) k = obj_get (obj_set a k' v) k'"
      using fresh by (simp add: p spread_Cons obj_get_spread_left)
    also have "\<dots> = v" by (simp add: obj_get_obj_set)
    also have "v = obj_get (p # b) k" by (simp add: True p obj_get_Cons)
    finally show ?thesis .
  next
    case False
    with Cons.prems(2) have kb: "k \<in> set (obj_keys b)" by (auto simp: p obj_keys_def)
    show ?thesis
      using False by (simp add: p spread_Cons Cons.IH[OF wfb kb] obj_get_Cons)
  qed
qed

lemma keys_spread_same:
  "set (obj_keys b) \<subseteq> set (obj_keys a) \<Longrightarrow> obj_keys (spread a b) = obj_keys a"
proof (induction b arbitrary: a)
  case Nil
  show ?case by (simp add: spread_Nil)
next
  case (Cons p b)
  obtain k v where p: "p = (k, v)" by (cases p)
  from Cons.prems have k: "k \<in> set (obj_keys a)" and b: "set (obj_keys b) \<subseteq> set (obj_keys a)"
    by (auto simp: p obj_keys_def)
  have same: "obj_keys (obj_set a k v) = obj_keys a" by (rule keys_obj_set_same[OF k])
  from b have "set (obj_keys b) \<subseteq> set (obj_keys (obj_set a k v))" by (simp add: same)
  from Cons.IH[OF this] show ?case by (simp add: p spread_Cons same)
qed




subsection \<open>The question sets\<close>

lemma props_at_error: "props_at ps k = Inl e \<Longrightarrow> e = TypeError"
  by (auto simp: props_at_def split: option.splits if_splits)

lemma filterChoices_asked: "filterChoices ps names = Inr kept \<Longrightarrow> kept = asked ps names"
proof (induction names arbitrary: kept)
  case Nil
  then show ?case by (simp add: asked_def)
next
  case (Cons name names)
  from Cons.prems obtain s rest where s: "props_at ps name = Inr s"
    and rest: "filterChoices ps names = Inr rest"
    and kept: "kept = (if hasEmptyChoices s then rest else name # rest)"
    by (auto split: sum.splits)
  from Cons.IH[OF rest] have "rest = asked ps names" .
  then show ?case by (simp add: kept asked_def s)
qed

lemma filterChoices_resolved:
  "filterChoices ps names = Inr kept \<Longrightarrow> \<forall>k\<in>set names. \<exists>s. props_at ps k = Inr s"
proof (induction names arbitrary: kept)
  case Nil
  then show ?case by simp
next
  case (Cons name names)
  from Cons.prems obtain s rest where s: "props_at ps name = Inr s"
    and rest: "filterChoices ps names = Inr rest"
    by (auto split: sum.splits)
  from Cons.IH[OF rest] s show ?case by simp
qed

lemma filterChoices_total:
  "\<forall>k\<in>set names. \<exists>s. props_at ps k = Inr s \<Longrightarrow> \<exists>kept. filterChoices ps names = Inr kept"
  by (induction names) auto

lemma filterChoices_error: "filterChoices ps names = Inl e \<Longrightarrow> e = TypeError"
  by (induction names arbitrary: e) (auto split: sum.splits dest: props_at_error)

lemma filterChoices_missing:
  assumes "k \<in> set names" and "\<forall>s. props_at ps k \<noteq> Inr s"
  shows "filterChoices ps names = Inl TypeError"
proof (cases "filterChoices ps names")
  case (Inl e)
  with filterChoices_error[OF Inl] show ?thesis by simp
next
  case (Inr kept)
  from filterChoices_resolved[OF Inr] assms show ?thesis by blast
qed

lemma asked_subset: "set (asked ps names) \<subseteq> set names"
  by (auto simp: asked_def)

lemma promptFor_name: "promptFor name dflts ps = Inr q \<Longrightarrow> q_name q = question_name ps name"
  by (auto simp: promptFor_def question_name_def Let_def split: sum.splits)

lemma promptFor_total: "props_at ps name = Inr s \<Longrightarrow> \<exists>q. promptFor name dflts ps = Inr q"
  by (simp add: promptFor_def Let_def)

lemma promptFor_error: "promptFor name dflts ps = Inl e \<Longrightarrow> e = TypeError"
  by (auto simp: promptFor_def Let_def split: sum.splits dest: props_at_error)

lemma mapPromptFor_names:
  "mapPromptFor dflts ps names = Inr qs \<Longrightarrow> map q_name qs = map (question_name ps) names"
proof (induction names arbitrary: qs)
  case Nil
  then show ?case by simp
next
  case (Cons name names)
  from Cons.prems obtain q rest where q: "promptFor name dflts ps = Inr q"
    and rest: "mapPromptFor dflts ps names = Inr rest" and qs: "qs = q # rest"
    by (auto split: sum.splits)
  show ?case by (simp add: qs promptFor_name[OF q] Cons.IH[OF rest])
qed

lemma mapPromptFor_total:
  "\<forall>k\<in>set names. \<exists>s. props_at ps k = Inr s \<Longrightarrow> \<exists>qs. mapPromptFor dflts ps names = Inr qs"
proof (induction names)
  case Nil
  show ?case by simp
next
  case (Cons name names)
  then obtain s where "props_at ps name = Inr s" by auto
  then obtain q where q: "promptFor name dflts ps = Inr q" using promptFor_total by blast
  from Cons obtain qs where "mapPromptFor dflts ps names = Inr qs" by auto
  with q show ?case by simp
qed

lemma mapPromptFor_error: "mapPromptFor dflts ps names = Inl e \<Longrightarrow> e = TypeError"
  by (induction names arbitrary: e) (auto split: sum.splits dest: promptFor_error)

lemma questions_names:
  assumes "(case filterChoices ps unset of
              Inl e \<Rightarrow> Inl e
            | Inr names \<Rightarrow> mapPromptFor dflts ps names) = Inr qs"
  shows "map q_name qs = map (question_name ps) (asked ps unset)"
proof -
  from assms obtain names where f: "filterChoices ps unset = Inr names"
    and m: "mapPromptFor dflts ps names = Inr qs"
    by (auto split: sum.splits)
  from mapPromptFor_names[OF m] filterChoices_asked[OF f] show ?thesis by simp
qed

lemma questions_total:
  assumes "\<forall>k\<in>set unset. \<exists>s. props_at ps k = Inr s"
  shows "\<exists>qs. (case filterChoices ps unset of
                 Inl e \<Rightarrow> Inl e
               | Inr names \<Rightarrow> mapPromptFor dflts ps names) = Inr qs"
proof -
  from filterChoices_total[OF assms] obtain names where f: "filterChoices ps unset = Inr names" ..
  from filterChoices_asked[OF f] asked_subset[of ps unset] assms
  have "\<forall>k\<in>set names. \<exists>s. props_at ps k = Inr s" by blast
  from mapPromptFor_total[OF this] obtain qs where "mapPromptFor dflts ps names = Inr qs" ..
  with f show ?thesis by simp
qed

lemma questions_error:
  assumes "(case filterChoices ps unset of
              Inl e \<Rightarrow> Inl e
            | Inr names \<Rightarrow> mapPromptFor dflts ps names) = Inl e"
  shows "e = TypeError"
  using assms by (auto split: sum.splits dest: filterChoices_error mapPromptFor_error)

lemma argsQuestions_names:
  "argsQuestions params = Inr qs \<Longrightarrow>
     map q_name qs = map (question_name (props params)) (asked (props params) (unsetArgs params))"
  unfolding argsQuestions_def by (rule questions_names)

lemma optsQuestions_names:
  "optsQuestions params = Inr qs \<Longrightarrow>
     map q_name qs = map (question_name (props params)) (asked (props params) (unsetOpts params))"
  unfolding optsQuestions_def by (rule questions_names)

lemma argsQuestions_total:
  "\<forall>k\<in>set (unsetArgs params). \<exists>s. props_at (props params) k = Inr s
     \<Longrightarrow> \<exists>qs. argsQuestions params = Inr qs"
  unfolding argsQuestions_def by (rule questions_total)

lemma optsQuestions_total:
  "\<forall>k\<in>set (unsetOpts params). \<exists>s. props_at (props params) k = Inr s
     \<Longrightarrow> \<exists>qs. optsQuestions params = Inr qs"
  unfolding optsQuestions_def by (rule questions_total)

lemma argsQuestions_error: "argsQuestions params = Inl e \<Longrightarrow> e = TypeError"
  unfolding argsQuestions_def by (rule questions_error)

lemma optsQuestions_error: "optsQuestions params = Inl e \<Longrightarrow> e = TypeError"
  unfolding optsQuestions_def by (rule questions_error)

lemma argsQuestions_missing:
  "k \<in> set (unsetArgs params) \<Longrightarrow> \<forall>s. props_at (props params) k \<noteq> Inr s
     \<Longrightarrow> argsQuestions params = Inl TypeError"
  by (simp add: argsQuestions_def filterChoices_missing)

lemma optsQuestions_missing:
  "k \<in> set (unsetOpts params) \<Longrightarrow> \<forall>s. props_at (props params) k \<noteq> Inr s
     \<Longrightarrow> optsQuestions params = Inl TypeError"
  by (simp add: optsQuestions_def filterChoices_missing)



subsection \<open>The prompt round\<close>

lemma inquirer_prompt_keys:
  "inquirer_prompt u acc qs = Inr answers \<Longrightarrow>
     set (obj_keys answers) = set (obj_keys acc) \<union> q_name ` set qs"
proof (induction qs arbitrary: acc)
  case Nil
  then show ?case by simp
next
  case (Cons q qs)
  from Cons.prems obtain v where v: "u acc q = Some v"
    and rest: "inquirer_prompt u (obj_set acc (q_name q) v) qs = Inr answers"
    by (auto split: option.splits)
  from Cons.IH[OF rest] show ?case by (auto simp: set_keys_obj_set)
qed

lemma inquirer_prompt_wf:
  "inquirer_prompt u acc qs = Inr answers \<Longrightarrow> wf_obj acc \<Longrightarrow> wf_obj answers"
proof (induction qs arbitrary: acc)
  case Nil
  then show ?case by simp
next
  case (Cons q qs)
  from Cons.prems(1) obtain v where v: "u acc q = Some v"
    and rest: "inquirer_prompt u (obj_set acc (q_name q) v) qs = Inr answers"
    by (auto split: option.splits)
  from Cons.IH[OF rest wf_obj_set[OF Cons.prems(2)]] show ?case .
qed

lemma inquirer_prompt_error: "inquirer_prompt u acc qs = Inl e \<Longrightarrow> e = PromptFailed"
  by (induction qs arbitrary: acc) (auto split: option.splits)

subsection \<open>The normalize pass\<close>

lemma normalizeEach_error: "normalizeEach ps ks m = Inl e \<Longrightarrow> e = TypeError"
  by (induction ks arbitrary: m) (auto split: sum.splits dest: props_at_error)

lemma normalizeEach_total:
  "\<forall>k\<in>set ks. \<exists>s. props_at ps k = Inr s \<Longrightarrow> \<exists>r. normalizeEach ps ks m = Inr r"
proof (induction ks arbitrary: m)
  case Nil
  show ?case by simp
next
  case (Cons k ks)
  then obtain s where s: "props_at ps k = Inr s" by auto
  from Cons.prems have "\<forall>k\<in>set ks. \<exists>s. props_at ps k = Inr s" by simp
  from Cons.IH[OF this] show ?case by (simp add: s)
qed

lemma normalizeEach_covered:
  "normalizeEach ps ks m = Inr r \<Longrightarrow> \<forall>k\<in>set ks. \<exists>s. props_at ps k = Inr s"
proof (induction ks arbitrary: m)
  case Nil
  show ?case by simp
next
  case (Cons k ks)
  from Cons.prems obtain s where s: "props_at ps k = Inr s"
    by (auto split: sum.splits)
  with Cons.prems Cons.IH show ?case by auto
qed


lemma normalizeEach_keys:
  "normalizeEach ps ks m = Inr r \<Longrightarrow> set ks \<subseteq> set (obj_keys m) \<Longrightarrow> obj_keys r = obj_keys m"
proof (induction ks arbitrary: m)
  case Nil
  then show ?case by simp
next
  case (Cons k ks)
  from Cons.prems(1) obtain s where s: "props_at ps k = Inr s"
    by (auto split: sum.splits)
  let ?m' = "case spec_normalize s of None \<Rightarrow> m
             | Some f \<Rightarrow> obj_set m k (f (obj_get m k))"
  from Cons.prems(1) have rest: "normalizeEach ps ks ?m' = Inr r" by (simp add: s)
  from Cons.prems(2) have k: "k \<in> set (obj_keys m)" by simp
  have keys: "obj_keys ?m' = obj_keys m"
    by (simp add: keys_obj_set_same[OF k] split: option.splits)
  from Cons.prems(2) have "set ks \<subseteq> set (obj_keys ?m')" by (simp add: keys)
  from Cons.IH[OF rest this] show ?case by (simp add: keys)
qed

lemma normalizeEach_wf:
  "normalizeEach ps ks m = Inr r \<Longrightarrow> wf_obj m \<Longrightarrow> wf_obj r"
proof (induction ks arbitrary: m)
  case Nil
  then show ?case by simp
next
  case (Cons k ks)
  from Cons.prems(1) obtain s where s: "props_at ps k = Inr s"
    by (auto split: sum.splits)
  let ?m' = "case spec_normalize s of None \<Rightarrow> m
             | Some f \<Rightarrow> obj_set m k (f (obj_get m k))"
  from Cons.prems(1) have rest: "normalizeEach ps ks ?m' = Inr r" by (simp add: s)
  have "wf_obj ?m'" using Cons.prems(2) by (simp add: wf_obj_set split: option.splits)
  from Cons.IH[OF rest this] show ?case .
qed

lemma normalizeEach_get:
  "normalizeEach ps ks m = Inr r \<Longrightarrow> distinct ks \<Longrightarrow>
     obj_get r k = (if k \<in> set ks then apply_normalize ps k (obj_get m k) else obj_get m k)"
proof (induction ks arbitrary: m)
  case Nil
  then show ?case by simp
next
  case (Cons k' ks)
  from Cons.prems(1) obtain s where s: "props_at ps k' = Inr s"
    by (auto split: sum.splits)
  let ?m' = "case spec_normalize s of None \<Rightarrow> m
             | Some f \<Rightarrow> obj_set m k' (f (obj_get m k'))"
  from Cons.prems(1) have rest: "normalizeEach ps ks ?m' = Inr r" by (simp add: s)
  from Cons.prems(2) have d: "distinct ks" and fresh: "k' \<notin> set ks" by simp_all
  have step: "obj_get ?m' x = (if x = k' then apply_normalize ps k' (obj_get m k') else obj_get m x)"
    for x
    by (simp add: apply_normalize_def s obj_get_obj_set split: option.splits)
  have ih: "obj_get r k = (if k \<in> set ks then apply_normalize ps k (obj_get ?m' k) else obj_get ?m' k)"
    by (rule Cons.IH[OF rest d])
  show ?case
  proof (cases "k = k'")
    case True
    with fresh have nk: "k \<notin> set ks" by simp
    have "obj_get r k = obj_get ?m' k" by (simp only: ih nk if_False)
    also have "\<dots> = apply_normalize ps k' (obj_get m k')" by (simp add: step True)
    finally show ?thesis by (simp add: True)
  next
    case False
    then have "obj_get ?m' k = obj_get m k" by (simp only: step if_False)
    with ih False show ?thesis by simp
  qed
qed

text \<open>The whole pass over an object's own keys.\<close>

lemma normalizeEach_all:
  assumes n: "normalizeEach ps (obj_keys m) m = Inr r" and wf: "wf_obj m"
  shows "wf_obj r" and "obj_keys r = obj_keys m"
    and "\<forall>k\<in>set (obj_keys m). \<exists>s. props_at ps k = Inr s"
    and "\<forall>k\<in>set (obj_keys m). obj_get r k = apply_normalize ps k (obj_get m k)"
proof -
  show "wf_obj r" by (rule normalizeEach_wf[OF n wf])
  show "obj_keys r = obj_keys m" by (rule normalizeEach_keys[OF n]) simp
  show "\<forall>k\<in>set (obj_keys m). \<exists>s. props_at ps k = Inr s" by (rule normalizeEach_covered[OF n])
  have d: "distinct (obj_keys m)" using wf by (simp add: wf_obj_def obj_keys_def)
  show "\<forall>k\<in>set (obj_keys m). obj_get r k = apply_normalize ps k (obj_get m k)"
    using normalizeEach_get[OF n d] by simp
qed

subsection \<open>One batch\<close>

text \<open>The object that \<^verbatim>\<open>answersFor\<close> normalizes.\<close>

lemma answersFor_cases:
  assumes "answersFor u inputs qs ps interactive = Inr r"
  obtains (silent) "\<not> interactive" "normalizeEach ps (obj_keys inputs) inputs = Inr r"
  | (prompted) answers where "interactive" "inquirer_prompt u [] qs = Inr answers"
      "normalizeEach ps (obj_keys (spread inputs answers)) (spread inputs answers) = Inr r"
proof (cases interactive)
  case False
  with assms have "normalizeEach ps (obj_keys inputs) inputs = Inr r"
    by (simp add: answersFor_def)
  with False show ?thesis by (rule silent)
next
  case True
  show ?thesis
  proof (cases "inquirer_prompt u [] qs")
    case (Inl e)
    with assms True show ?thesis by (simp add: answersFor_def)
  next
    case (Inr answers)
    with assms True
    have "normalizeEach ps (obj_keys (spread inputs answers)) (spread inputs answers) = Inr r"
      by (simp add: answersFor_def)
    with True Inr show ?thesis by (rule prompted)
  qed
qed

lemma answersFor_silent:
  "answersFor u inputs qs ps False = normalizeEach ps (obj_keys inputs) inputs"
  by (simp add: answersFor_def)


lemma answersFor_prompt_failed:
  "inquirer_prompt u [] qs = Inl e \<Longrightarrow> answersFor u inputs qs ps True = Inl e"
  by (simp add: answersFor_def)

lemma answersFor_missing:
  assumes "k \<in> set (obj_keys inputs)" and "\<forall>s. props_at ps k \<noteq> Inr s"
  shows "\<exists>e. answersFor u inputs qs ps interactive = Inl e"
proof (cases "answersFor u inputs qs ps interactive")
  case (Inl e)
  then show ?thesis by simp
next
  case (Inr r)
  then have "\<exists>s. props_at ps k = Inr s"
  proof (cases rule: answersFor_cases)
    case silent
    from normalizeEach_covered[OF silent(2)] assms(1) show ?thesis by blast
  next
    case (prompted answers)
    from assms(1) have "k \<in> set (obj_keys (spread inputs answers))"
      by (simp add: set_keys_spread)
    with normalizeEach_covered[OF prompted(3)] show ?thesis by blast
  qed
  with assms(2) show ?thesis by blast
qed

lemma answersFor_keys:
  assumes r: "answersFor u inputs qs ps interactive = Inr r" and wf: "wf_obj inputs"
  shows "wf_obj r"
    and "set (obj_keys r) \<subseteq> set (obj_keys inputs) \<union> q_name ` set qs"
    and "set (obj_keys inputs) \<subseteq> set (obj_keys r)"
    and "\<forall>k\<in>set (obj_keys inputs). \<exists>s. props_at ps k = Inr s"
proof -
  from r have "wf_obj r \<and> set (obj_keys r) \<subseteq> set (obj_keys inputs) \<union> q_name ` set qs
      \<and> set (obj_keys inputs) \<subseteq> set (obj_keys r)
      \<and> (\<forall>k\<in>set (obj_keys inputs). \<exists>s. props_at ps k = Inr s)"
  proof (cases rule: answersFor_cases)
    case silent
    from normalizeEach_all[OF silent(2) wf] show ?thesis by simp
  next
    case (prompted answers)
    from inquirer_prompt_keys[OF prompted(2)]
    have ka: "set (obj_keys answers) = q_name ` set qs" by (simp add: obj_keys_def)
    note N = normalizeEach_all[OF prompted(3) wf_spread[OF wf]]
    from N(1) N(2) N(3) show ?thesis by (simp add: set_keys_spread ka)
  qed
  then show "wf_obj r"
    and "set (obj_keys r) \<subseteq> set (obj_keys inputs) \<union> q_name ` set qs"
    and "set (obj_keys inputs) \<subseteq> set (obj_keys r)"
    and "\<forall>k\<in>set (obj_keys inputs). \<exists>s. props_at ps k = Inr s"
    by simp_all
qed


lemma answersFor_answered:
  assumes r: "answersFor u inputs qs ps True = Inr r" and wf: "wf_obj inputs"
  shows "\<exists>answers. inquirer_prompt u [] qs = Inr answers
           \<and> set (obj_keys answers) = q_name ` set qs
           \<and> set (obj_keys r) = set (obj_keys inputs) \<union> q_name ` set qs
           \<and> (\<forall>k\<in>set (obj_keys answers). obj_get r k = apply_normalize ps k (obj_get answers k))"
  using r
proof (cases rule: answersFor_cases)
  case silent
  then show ?thesis by simp
next
  case (prompted answers)
  from inquirer_prompt_keys[OF prompted(2)]
  have ka: "set (obj_keys answers) = q_name ` set qs" by (simp add: obj_keys_def)
  have wfa: "wf_obj answers"
    by (rule inquirer_prompt_wf[OF prompted(2)]) (simp add: wf_obj_def)
  note N = normalizeEach_all[OF prompted(3) wf_spread[OF wf]]
  have "\<forall>k\<in>set (obj_keys answers). obj_get r k = apply_normalize ps k (obj_get answers k)"
  proof
    fix k assume k: "k \<in> set (obj_keys answers)"
    then have "k \<in> set (obj_keys (spread inputs answers))" by (simp add: set_keys_spread)
    with N(4) have "obj_get r k = apply_normalize ps k (obj_get (spread inputs answers) k)"
      by blast
    with obj_get_spread_right[OF wfa k]
    show "obj_get r k = apply_normalize ps k (obj_get answers k)" by simp
  qed
  with prompted(2) ka N(2) show ?thesis by (auto simp: set_keys_spread)
qed

lemma answersFor_covered:
  assumes cov: "\<forall>k\<in>set (obj_keys inputs). \<exists>s. props_at ps k = Inr s"
  shows "\<exists>r. answersFor u inputs qs ps False = Inr r"
    and "\<forall>q\<in>set qs. \<exists>s. props_at ps (q_name q) = Inr s \<Longrightarrow>
           (\<exists>r. answersFor u inputs qs ps interactive = Inr r)
           \<or> (interactive \<and> answersFor u inputs qs ps interactive = Inl PromptFailed)"
proof -
  from normalizeEach_total[OF cov] show silent: "\<exists>r. answersFor u inputs qs ps False = Inr r"
    by (simp add: answersFor_silent)
  assume named: "\<forall>q\<in>set qs. \<exists>s. props_at ps (q_name q) = Inr s"
  show "(\<exists>r. answersFor u inputs qs ps interactive = Inr r)
           \<or> (interactive \<and> answersFor u inputs qs ps interactive = Inl PromptFailed)"
  proof (cases "interactive")
    case False
    with silent show ?thesis by simp
  next
    case True
    show ?thesis
    proof (cases "inquirer_prompt u [] qs")
      case (Inl e)
      from inquirer_prompt_error[OF Inl] Inl show ?thesis by (simp add: answersFor_def True)
    next
      case (Inr answers)
      from inquirer_prompt_keys[OF Inr] have ka: "set (obj_keys answers) = q_name ` set qs"
        by (simp add: obj_keys_def)
      have "\<forall>k\<in>set (obj_keys (spread inputs answers)). \<exists>s. props_at ps k = Inr s"
      proof
        fix k assume "k \<in> set (obj_keys (spread inputs answers))"
        then have "k \<in> set (obj_keys inputs) \<or> k \<in> q_name ` set qs"
          by (simp add: set_keys_spread ka)
        then show "\<exists>s. props_at ps k = Inr s"
        proof
          assume "k \<in> set (obj_keys inputs)"
          with cov show ?thesis by (rule bspec)
        next
          assume "k \<in> q_name ` set qs"
          then obtain q where "q \<in> set qs" and "k = q_name q" by (rule imageE)
          with named show ?thesis by simp
        qed
      qed
      from normalizeEach_total[OF this] show ?thesis by (simp add: answersFor_def True Inr)
    qed
  qed
qed


subsection \<open>The whole call\<close>

lemma promptIfNeeded_Inr:
  assumes "promptIfNeeded st u params interactive = Inr r"
  obtains aqs oqs fromArgs fromOpts where
    "argsQuestions params = Inr aqs" and "optsQuestions params = Inr oqs"
    and "answersFor u (argsOf params) aqs (props params)
           (case interactive of None \<Rightarrow> DEFAULT_INTERACTIVE_STATUS st | Some b \<Rightarrow> b) = Inr fromArgs"
    and "answersFor u (optsOf params) oqs (props params)
           (case interactive of None \<Rightarrow> DEFAULT_INTERACTIVE_STATUS st | Some b \<Rightarrow> b) = Inr fromOpts"
    and "r = spread fromArgs fromOpts"
  using assms unfolding promptIfNeeded_def Let_def
  by (auto split: sum.splits)


subsection \<open>The claims\<close>

text \<open>
  C10. When the \<^verbatim>\<open>interactive\<close> argument is omitted (undefined), the call is the call with
  \<^verbatim>\<open>interactive\<close> set to the current value of the module's flag
  \<^verbatim>\<open>DEFAULT_INTERACTIVE_STATUS\<close>, and the flag starts as \<^verbatim>\<open>true\<close>. So in the initial
  module state a call without the argument prompts: each batch of questions goes through
  one prompt round, a round that fails makes the call fail, and the answers of the
  rounds, normalized, are the values of their names in the returned answer set (the
  answers of the \<^verbatim>\<open>opts\<close> round always, those of the \<^verbatim>\<open>args\<close> round for the names
  that the \<^verbatim>\<open>opts\<close> batch does not have).
\<close>

theorem promptIfNeeded_default_interactive:
  "promptIfNeeded st u params None
     = promptIfNeeded st u params (Some (DEFAULT_INTERACTIVE_STATUS st))
   \<and> DEFAULT_INTERACTIVE_STATUS initial_module_state = True
   \<and> promptIfNeeded initial_module_state u params None
     = promptIfNeeded initial_module_state u params (Some True)
   \<and> (\<forall>aqs oqs e. argsQuestions params = Inr aqs \<and> optsQuestions params = Inr oqs
          \<and> inquirer_prompt u [] aqs = Inl e
        \<longrightarrow> promptIfNeeded initial_module_state u params None = Inl e)
   \<and> (\<forall>r. wf_obj (argsOf params) \<and> wf_obj (optsOf params)
          \<and> promptIfNeeded initial_module_state u params None = Inr r
        \<longrightarrow> (\<exists>aqs oqs fromArgs fromOpts.
              argsQuestions params = Inr aqs \<and> optsQuestions params = Inr oqs
              \<and> inquirer_prompt u [] aqs = Inr fromArgs
              \<and> inquirer_prompt u [] oqs = Inr fromOpts
              \<and> set (obj_keys fromArgs) = q_name ` set aqs
              \<and> set (obj_keys fromOpts) = q_name ` set oqs
              \<and> (\<forall>k\<in>set (obj_keys fromOpts).
                    obj_get r k = apply_normalize (props params) k (obj_get fromOpts k))
              \<and> (\<forall>k\<in>set (obj_keys fromArgs).
                    k \<notin> set (obj_keys (optsOf params)) \<and> k \<notin> set (obj_keys fromOpts)
                    \<longrightarrow> obj_get r k = apply_normalize (props params) k (obj_get fromArgs k))))"
proof (intro conjI allI impI)
  show "promptIfNeeded st u params None
     = promptIfNeeded st u params (Some (DEFAULT_INTERACTIVE_STATUS st))"
    by (simp add: promptIfNeeded_def)
  show "DEFAULT_INTERACTIVE_STATUS initial_module_state = True"
    by (simp add: initial_module_state_def)
  show "promptIfNeeded initial_module_state u params None
     = promptIfNeeded initial_module_state u params (Some True)"
    by (simp add: promptIfNeeded_def initial_module_state_def)
next
  fix aqs oqs e
  assume h: "argsQuestions params = Inr aqs \<and> optsQuestions params = Inr oqs
          \<and> inquirer_prompt u [] aqs = Inl e"
  then have "answersFor u (argsOf params) aqs (props params) True = Inl e"
    by (simp add: answersFor_prompt_failed)
  with h show "promptIfNeeded initial_module_state u params None = Inl e"
    by (simp add: promptIfNeeded_def initial_module_state_def)
next
  fix r
  assume h: "wf_obj (argsOf params) \<and> wf_obj (optsOf params)
          \<and> promptIfNeeded initial_module_state u params None = Inr r"
  then have wfa: "wf_obj (argsOf params)" and wfo: "wf_obj (optsOf params)"
    and r: "promptIfNeeded initial_module_state u params None = Inr r"
    by simp_all
  from r obtain aqs oqs ra ro where aqs: "argsQuestions params = Inr aqs"
    and oqs: "optsQuestions params = Inr oqs"
    and fa: "answersFor u (argsOf params) aqs (props params) True = Inr ra"
    and fo: "answersFor u (optsOf params) oqs (props params) True = Inr ro"
    and res: "r = spread ra ro"
    by (auto elim!: promptIfNeeded_Inr simp: initial_module_state_def)
  from answersFor_answered[OF fa wfa] obtain fromArgs where
    pa: "inquirer_prompt u [] aqs = Inr fromArgs"
    and ka: "set (obj_keys fromArgs) = q_name ` set aqs"
    and va: "\<forall>k\<in>set (obj_keys fromArgs).
               obj_get ra k = apply_normalize (props params) k (obj_get fromArgs k)"
    by blast
  from answersFor_answered[OF fo wfo] obtain fromOpts where
    po: "inquirer_prompt u [] oqs = Inr fromOpts"
    and ko: "set (obj_keys fromOpts) = q_name ` set oqs"
    and kro: "set (obj_keys ro) = set (obj_keys (optsOf params)) \<union> q_name ` set oqs"
    and vo: "\<forall>k\<in>set (obj_keys fromOpts).
               obj_get ro k = apply_normalize (props params) k (obj_get fromOpts k)"
    by blast
  have wro: "wf_obj ro" by (rule answersFor_keys(1)[OF fo wfo])
  have o: "\<forall>k\<in>set (obj_keys fromOpts).
             obj_get r k = apply_normalize (props params) k (obj_get fromOpts k)"
  proof
    fix k assume k: "k \<in> set (obj_keys fromOpts)"
    with ko kro have "k \<in> set (obj_keys ro)" by simp
    then have "obj_get r k = obj_get ro k" by (simp add: res obj_get_spread_right[OF wro])
    with vo k show "obj_get r k = apply_normalize (props params) k (obj_get fromOpts k)"
      by simp
  qed
  have a: "\<forall>k\<in>set (obj_keys fromArgs).
             k \<notin> set (obj_keys (optsOf params)) \<and> k \<notin> set (obj_keys fromOpts)
             \<longrightarrow> obj_get r k = apply_normalize (props params) k (obj_get fromArgs k)"
  proof (intro ballI impI)
    fix k assume k: "k \<in> set (obj_keys fromArgs)"
      and n: "k \<notin> set (obj_keys (optsOf params)) \<and> k \<notin> set (obj_keys fromOpts)"
    from n ko kro have "k \<notin> set (obj_keys ro)" by simp
    then have "obj_get r k = obj_get ra k" by (simp add: res obj_get_spread_left)
    with va k show "obj_get r k = apply_normalize (props params) k (obj_get fromArgs k)"
      by simp
  qed
  from aqs oqs pa po ka ko o a
  show "\<exists>aqs oqs fromArgs fromOpts.
              argsQuestions params = Inr aqs \<and> optsQuestions params = Inr oqs
              \<and> inquirer_prompt u [] aqs = Inr fromArgs
              \<and> inquirer_prompt u [] oqs = Inr fromOpts
              \<and> set (obj_keys fromArgs) = q_name ` set aqs
              \<and> set (obj_keys fromOpts) = q_name ` set oqs
              \<and> (\<forall>k\<in>set (obj_keys fromOpts).
                    obj_get r k = apply_normalize (props params) k (obj_get fromOpts k))
              \<and> (\<forall>k\<in>set (obj_keys fromArgs).
                    k \<notin> set (obj_keys (optsOf params)) \<and> k \<notin> set (obj_keys fromOpts)
                    \<longrightarrow> obj_get r k = apply_normalize (props params) k (obj_get fromArgs k))"
    by blast
qed




text \<open>
  C9, as amended. While it builds the questions, \<^verbatim>\<open>promptIfNeeded\<close> reads the
  \<^verbatim>\<open>choices\<close> of \<^verbatim>\<open>props[name]\<close> for the names that are unset and for no other: the
  filter throws a \<^verbatim>\<open>TypeError\<close>, and the call with it, as soon as \<^verbatim>\<open>props\<close> resolves
  some unset name neither as an own entry nor as a member inherited from
  \<^verbatim>\<open>Object.prototype\<close>, and the questions are built as soon as it resolves the unset
  names, whatever it has for the others. In the final merge the \<^verbatim>\<open>normalize\<close> of
  \<^verbatim>\<open>props[name]\<close> is read for every key of the merged object, so a call in which
  \<^verbatim>\<open>props\<close> does not resolve some name of \<^verbatim>\<open>args\<close> or \<^verbatim>\<open>opts\<close> fails instead of
  returning an answer set, with a \<^verbatim>\<open>TypeError\<close> when it does not prompt. When
  \<^verbatim>\<open>props\<close> resolves every name of \<^verbatim>\<open>args\<close> and \<^verbatim>\<open>opts\<close>, the call that does not
  prompt returns, and no call ends in a \<^verbatim>\<open>TypeError\<close> provided \<^verbatim>\<open>props\<close> also
  resolves the names that the questions carry.
\<close>

theorem props_must_cover_names:
  "(k \<in> set (unsetArgs params) \<and> (\<forall>s. props_at (props params) k \<noteq> Inr s)
      \<longrightarrow> filterChoices (props params) (unsetArgs params) = Inl TypeError
          \<and> argsQuestions params = Inl TypeError
          \<and> promptIfNeeded st u params interactive = Inl TypeError)
   \<and> (k \<in> set (unsetOpts params) \<and> (\<forall>s. props_at (props params) k \<noteq> Inr s)
      \<longrightarrow> filterChoices (props params) (unsetOpts params) = Inl TypeError
          \<and> optsQuestions params = Inl TypeError
          \<and> promptIfNeeded st u params interactive = Inl TypeError)
   \<and> ((\<forall>n\<in>set (unsetArgs params). \<exists>s. props_at (props params) n = Inr s)
      \<longrightarrow> (\<exists>qs. argsQuestions params = Inr qs))
   \<and> ((\<forall>n\<in>set (unsetOpts params). \<exists>s. props_at (props params) n = Inr s)
      \<longrightarrow> (\<exists>qs. optsQuestions params = Inr qs))
   \<and> (k \<in> set (obj_keys (argsOf params)) \<union> set (obj_keys (optsOf params))
        \<and> (\<forall>s. props_at (props params) k \<noteq> Inr s)
      \<longrightarrow> (\<exists>e. promptIfNeeded st u params interactive = Inl e)
          \<and> promptIfNeeded st u params (Some False) = Inl TypeError)
   \<and> ((\<forall>n\<in>set (obj_keys (argsOf params)) \<union> set (obj_keys (optsOf params)).
          \<exists>s. props_at (props params) n = Inr s)
      \<longrightarrow> (\<exists>r. promptIfNeeded st u params (Some False) = Inr r)
          \<and> ((\<forall>b\<in>set (asked (props params) (unsetArgs params))
                    \<union> set (asked (props params) (unsetOpts params)).
                 \<exists>s. props_at (props params) (question_name (props params) b) = Inr s)
              \<longrightarrow> promptIfNeeded st u params interactive \<noteq> Inl TypeError))"
proof -
  let ?ps = "props params"
  let ?i = "case interactive of None \<Rightarrow> DEFAULT_INTERACTIVE_STATUS st | Some b \<Rightarrow> b"
  have unset_a: "set (unsetArgs params) \<subseteq> set (obj_keys (argsOf params))"
    by (auto simp: unsetArgs_def)
  have unset_o: "set (unsetOpts params) \<subseteq> set (obj_keys (optsOf params))"
    by (auto simp: unsetOpts_def)
  have fail: "\<exists>e. promptIfNeeded st u params i = Inl e"
    if "k \<in> set (obj_keys (argsOf params)) \<union> set (obj_keys (optsOf params))"
      and miss: "\<forall>s. props_at ?ps k \<noteq> Inr s" for i
  proof (cases "promptIfNeeded st u params i")
    case (Inl e)
    then show ?thesis by simp
  next
    case (Inr r)
    then obtain aqs oqs fromArgs fromOpts b where
      fa: "answersFor u (argsOf params) aqs ?ps b = Inr fromArgs"
      and fo: "answersFor u (optsOf params) oqs ?ps b = Inr fromOpts"
      by (auto elim!: promptIfNeeded_Inr)
    from that(1) have "k \<in> set (obj_keys (argsOf params)) \<or> k \<in> set (obj_keys (optsOf params))"
      by simp
    then have False
    proof
      assume "k \<in> set (obj_keys (argsOf params))"
      from answersFor_missing[OF this miss, of u aqs b] fa show False by simp
    next
      assume "k \<in> set (obj_keys (optsOf params))"
      from answersFor_missing[OF this miss, of u oqs b] fo show False by simp
    qed
    then show ?thesis ..
  qed
  have silent_error: "e = TypeError" if "promptIfNeeded st u params (Some False) = Inl e" for e
    using that unfolding promptIfNeeded_def Let_def
    by (auto simp: answersFor_silent split: sum.splits
          dest: argsQuestions_error optsQuestions_error normalizeEach_error)
  show ?thesis
  proof (intro conjI impI)
    assume h: "k \<in> set (unsetArgs params) \<and> (\<forall>s. props_at ?ps k \<noteq> Inr s)"
    then show f: "filterChoices ?ps (unsetArgs params) = Inl TypeError"
      by (intro filterChoices_missing[of k]) simp_all
    from h show a: "argsQuestions params = Inl TypeError"
      by (intro argsQuestions_missing[of k]) simp_all
    then show "promptIfNeeded st u params interactive = Inl TypeError"
      by (simp add: promptIfNeeded_def)
  next
    assume h: "k \<in> set (unsetOpts params) \<and> (\<forall>s. props_at ?ps k \<noteq> Inr s)"
    then show "filterChoices ?ps (unsetOpts params) = Inl TypeError"
      by (intro filterChoices_missing[of k]) simp_all
    from h show o: "optsQuestions params = Inl TypeError"
      by (intro optsQuestions_missing[of k]) simp_all
    show "promptIfNeeded st u params interactive = Inl TypeError"
    proof (cases "argsQuestions params")
      case (Inl e)
      with argsQuestions_error[OF Inl] show ?thesis by (simp add: promptIfNeeded_def)
    next
      case (Inr aqs)
      with o show ?thesis by (simp add: promptIfNeeded_def)
    qed
  next
    assume "\<forall>n\<in>set (unsetArgs params). \<exists>s. props_at ?ps n = Inr s"
    then show "\<exists>qs. argsQuestions params = Inr qs" by (rule argsQuestions_total)
  next
    assume "\<forall>n\<in>set (unsetOpts params). \<exists>s. props_at ?ps n = Inr s"
    then show "\<exists>qs. optsQuestions params = Inr qs" by (rule optsQuestions_total)
  next
    assume h: "k \<in> set (obj_keys (argsOf params)) \<union> set (obj_keys (optsOf params))
        \<and> (\<forall>s. props_at ?ps k \<noteq> Inr s)"
    then show "\<exists>e. promptIfNeeded st u params interactive = Inl e" by (simp add: fail)
    from h obtain e where "promptIfNeeded st u params (Some False) = Inl e"
      using fail[of "Some False"] by blast
    with silent_error[OF this] show "promptIfNeeded st u params (Some False) = Inl TypeError"
      by simp
  next
    assume cov: "\<forall>n\<in>set (obj_keys (argsOf params)) \<union> set (obj_keys (optsOf params)).
          \<exists>s. props_at ?ps n = Inr s"
    then have cova: "\<forall>n\<in>set (obj_keys (argsOf params)). \<exists>s. props_at ?ps n = Inr s"
      and covo: "\<forall>n\<in>set (obj_keys (optsOf params)). \<exists>s. props_at ?ps n = Inr s"
      by simp_all
    from cova unset_a have "\<forall>n\<in>set (unsetArgs params). \<exists>s. props_at ?ps n = Inr s" by blast
    from argsQuestions_total[OF this] obtain aqs where aqs: "argsQuestions params = Inr aqs" ..
    from covo unset_o have "\<forall>n\<in>set (unsetOpts params). \<exists>s. props_at ?ps n = Inr s" by blast
    from optsQuestions_total[OF this] obtain oqs where oqs: "optsQuestions params = Inr oqs" ..
    from answersFor_covered(1)[OF cova, of u aqs] obtain ra where
      ra: "answersFor u (argsOf params) aqs ?ps False = Inr ra" ..
    from answersFor_covered(1)[OF covo, of u oqs] obtain ro where
      ro: "answersFor u (optsOf params) oqs ?ps False = Inr ro" ..
    show "\<exists>r. promptIfNeeded st u params (Some False) = Inr r"
      by (simp add: promptIfNeeded_def aqs oqs ra ro)
    assume named: "\<forall>b\<in>set (asked ?ps (unsetArgs params)) \<union> set (asked ?ps (unsetOpts params)).
                 \<exists>s. props_at ?ps (question_name ?ps b) = Inr s"
    have qa: "\<forall>q\<in>set aqs. \<exists>s. props_at ?ps (q_name q) = Inr s"
    proof
      fix q assume "q \<in> set aqs"
      then have "q_name q \<in> set (map q_name aqs)" by simp
      then have "q_name q \<in> question_name ?ps ` set (asked ?ps (unsetArgs params))"
        by (simp add: argsQuestions_names[OF aqs])
      with named show "\<exists>s. props_at ?ps (q_name q) = Inr s" by auto
    qed
    have qo: "\<forall>q\<in>set oqs. \<exists>s. props_at ?ps (q_name q) = Inr s"
    proof
      fix q assume "q \<in> set oqs"
      then have "q_name q \<in> set (map q_name oqs)" by simp
      then have "q_name q \<in> question_name ?ps ` set (asked ?ps (unsetOpts params))"
        by (simp add: optsQuestions_names[OF oqs])
      with named show "\<exists>s. props_at ?ps (q_name q) = Inr s" by auto
    qed
    from answersFor_covered(2)[OF cova qa, of u ?i] answersFor_covered(2)[OF covo qo, of u ?i]
    show "promptIfNeeded st u params interactive \<noteq> Inl TypeError"
      unfolding promptIfNeeded_def Let_def aqs oqs
      by (auto split: sum.splits)
  qed
qed

subsection \<open>The claims on concrete calls\<close>

lemmas resolver_defs =
  promptIfNeeded_def argsQuestions_def optsQuestions_def unsetArgs_def unsetOpts_def
  argsOf_def optsOf_def answersFor_def spread_def obj_get_def obj_set_def obj_keys_def
  props_at_def hasEmptyChoices_def promptFor_def js_or_def initial_module_state_def
  object_prototype_def inherited_entry_def

lemmas example_defs =
  unlink_params_def setCommandProps_def deploy_params_def deploy_props_def
  picks_dep1_def no_input_def answers_ropsten_def toString_params_def renaming_params_def

text \<open>
  \<^verbatim>\<open>zos unlink\<close> with no dependency on the command line and no \<^verbatim>\<open>interactive\<close>
  argument: the person is asked and the selection comes back; a closed input source makes
  the call fail; with \<^verbatim>\<open>interactive\<close> false nothing is asked.
\<close>

theorem promptIfNeeded_default_interactive_witness:
  "promptIfNeeded initial_module_state picks_dep1
     (unlink_params (JArr []) [''dep1'', ''dep2'']) None
   = Inr [(''dependencies'', JArr [JStr ''dep1''])]
   \<and> promptIfNeeded initial_module_state no_input
     (unlink_params (JArr []) [''dep1'', ''dep2'']) None
   = Inl PromptFailed
   \<and> promptIfNeeded initial_module_state picks_dep1
     (unlink_params (JArr []) [''dep1'', ''dep2'']) (Some False)
   = Inr [(''dependencies'', JArr [])]"
proof -
  let ?p = "unlink_params (JArr []) [''dep1'', ''dep2'']"
  let ?q = "\<lparr> isInquirerQuestion = True, q_name = ''dependencies'',
         q_type = JStr ''checkbox'',
         q_message = JStr ''Select the dependencies you want to unlink'',
         q_choices = JArr [JStr ''dep1'', JStr ''dep2''],
         q_normalize = None, q_default = JUndefined \<rparr>"
  have aq: "argsQuestions ?p = Inr [?q]"
    by (simp add: resolver_defs example_defs)
  have oq: "optsQuestions ?p = Inr []"
    by (simp add: resolver_defs example_defs)
  have closed: "inquirer_prompt no_input [] [?q] = Inl PromptFailed"
    by (simp add: no_input_def)
  have asked_run: "promptIfNeeded initial_module_state picks_dep1 ?p (Some True)
      = Inr [(''dependencies'', JArr [JStr ''dep1''])]"
    by (simp add: resolver_defs example_defs)
  have a: "promptIfNeeded initial_module_state picks_dep1 ?p None
      = Inr [(''dependencies'', JArr [JStr ''dep1''])]"
    using promptIfNeeded_default_interactive[of initial_module_state picks_dep1 ?p] asked_run
    by simp
  have b: "promptIfNeeded initial_module_state no_input ?p None = Inl PromptFailed"
    using promptIfNeeded_default_interactive[of initial_module_state no_input ?p] aq oq closed
    by blast
  have c: "promptIfNeeded initial_module_state picks_dep1 ?p (Some False)
      = Inr [(''dependencies'', JArr [])]"
    by (simp add: resolver_defs example_defs)
  from a b c show ?thesis by simp
qed







text \<open>
  Why the amended C3 and C8 ask that no asked question carries the name: the entry of
  \<^verbatim>\<open>b\<close> is named \<^verbatim>\<open>a\<close>, so the question built for \<^verbatim>\<open>b\<close> is a question \<^verbatim>\<open>a\<close>, and
  its answer becomes the value of \<^verbatim>\<open>a\<close>, whose own choices are empty.
\<close>

lemma renamed_question_answers_other_name:
  "map q_name (projr (argsQuestions renaming_params)) = [''a'']
   \<and> promptIfNeeded initial_module_state picks_dep1 renaming_params (Some True)
      = Inr [(''a'', JArr [JStr ''dep1'']), (''b'', JUndefined)]"
  by (simp add: resolver_defs example_defs)

text \<open>
  \<^verbatim>\<open>unlink\<close> with a \<^verbatim>\<open>props\<close> object that has no entry. With no dependency given the
  name is unset and the filter throws; with \<^verbatim>\<open>dep2\<close> given the questions are built and
  the merge throws. With the entry, the call that does not prompt returns and the
  prompting call does not throw.
\<close>

theorem props_must_cover_names_witness:
  "argsQuestions ((unlink_params (JArr []) [''dep1'', ''dep2''])\<lparr> props := Some Map.empty \<rparr>)
     = Inl TypeError
   \<and> promptIfNeeded initial_module_state picks_dep1
        ((unlink_params (JArr []) [''dep1'', ''dep2''])\<lparr> props := Some Map.empty \<rparr>) (Some True)
     = Inl TypeError
   \<and> (\<exists>qs. argsQuestions
              ((unlink_params (JArr [JStr ''dep2'']) [''dep1'', ''dep2''])\<lparr> props := Some Map.empty \<rparr>)
            = Inr qs)
   \<and> promptIfNeeded initial_module_state picks_dep1
        ((unlink_params (JArr [JStr ''dep2'']) [''dep1'', ''dep2''])\<lparr> props := Some Map.empty \<rparr>)
        (Some False)
     = Inl TypeError
   \<and> promptIfNeeded initial_module_state picks_dep1
        (unlink_params (JArr []) [''dep1'', ''dep2'']) (Some True) \<noteq> Inl TypeError
   \<and> (\<exists>r. promptIfNeeded initial_module_state picks_dep1
          (unlink_params (JArr []) [''dep1'', ''dep2'']) (Some False) = Inr r)"
proof -
  let ?p = "unlink_params (JArr []) [''dep1'', ''dep2'']"
  let ?e = "?p\<lparr> props := Some Map.empty \<rparr>"
  let ?g = "(unlink_params (JArr [JStr ''dep2'']) [''dep1'', ''dep2''])\<lparr> props := Some Map.empty \<rparr>"
  have unset: "''dependencies'' \<in> set (unsetArgs ?e)
      \<and> (\<forall>s. props_at (props ?e) ''dependencies'' \<noteq> Inr s)"
    by (simp add: resolver_defs example_defs)
  have none_unset: "\<forall>n\<in>set (unsetArgs ?g). \<exists>s. props_at (props ?g) n = Inr s"
    by (simp add: resolver_defs example_defs)
  have miss: "''dependencies'' \<in> set (obj_keys (argsOf ?g)) \<union> set (obj_keys (optsOf ?g))
      \<and> (\<forall>s. props_at (props ?g) ''dependencies'' \<noteq> Inr s)"
    by (simp add: resolver_defs example_defs)
  have cov: "\<forall>n\<in>set (obj_keys (argsOf ?p)) \<union> set (obj_keys (optsOf ?p)).
      \<exists>s. props_at (props ?p) n = Inr s"
    by (simp add: resolver_defs example_defs)
  have named: "\<forall>b\<in>set (asked (props ?p) (unsetArgs ?p)) \<union> set (asked (props ?p) (unsetOpts ?p)).
      \<exists>s. props_at (props ?p) (question_name (props ?p) b) = Inr s"
    by (simp add: resolver_defs example_defs asked_def question_name_def)
  from props_must_cover_names[of "''dependencies''" ?e initial_module_state picks_dep1 "Some True"]
    unset
  have a: "argsQuestions ?e = Inl TypeError
      \<and> promptIfNeeded initial_module_state picks_dep1 ?e (Some True) = Inl TypeError"
    by blast
  from props_must_cover_names[of "''dependencies''" ?g initial_module_state picks_dep1 "Some True"]
    none_unset miss
  have b: "(\<exists>qs. argsQuestions ?g = Inr qs)
      \<and> promptIfNeeded initial_module_state picks_dep1 ?g (Some False) = Inl TypeError"
    by blast
  from props_must_cover_names[of "''dependencies''" ?p initial_module_state picks_dep1 "Some True"]
    cov named
  have c: "promptIfNeeded initial_module_state picks_dep1 ?p (Some True) \<noteq> Inl TypeError
      \<and> (\<exists>r. promptIfNeeded initial_module_state picks_dep1 ?p (Some False) = Inr r)"
    by blast
  from a b c show ?thesis by blast
qed

text \<open>
  C9, as stated, fails in two ways. The \<^verbatim>\<open>choices\<close> of a name that is supplied are not
  read while the questions are built: \<^verbatim>\<open>unlink dep2\<close> with a \<^verbatim>\<open>props\<close> object that has
  no entry builds its (empty) question set without throwing. And a name without an entry
  need not make the call fail: \<^verbatim>\<open>props['toString']\<close> is the inherited function, whose
  \<^verbatim>\<open>normalize\<close> is undefined, and the call returns.
\<close>

theorem props_entry_not_always_read:
  "obj_keys (argsOf ((unlink_params (JArr [JStr ''dep2'']) [''dep1'', ''dep2''])
                       \<lparr> props := Some Map.empty \<rparr>)) = [''dependencies'']
   \<and> argsQuestions ((unlink_params (JArr [JStr ''dep2'']) [''dep1'', ''dep2''])
                       \<lparr> props := Some Map.empty \<rparr>) = Inr []
   \<and> obj_keys (argsOf toString_params) = [''toString'']
   \<and> props toString_params = Some Map.empty
   \<and> promptIfNeeded initial_module_state picks_dep1 toString_params (Some True)
      = Inr [(''toString'', JStr ''x'')]
   \<and> promptIfNeeded initial_module_state picks_dep1 toString_params (Some False)
      = Inr [(''toString'', JStr ''x'')]"
  by (simp add: resolver_defs example_defs)

section \<open>Properties of the proxy resolver\<close>

text \<open>
  C2. When at least one of \<^verbatim>\<open>contractAlias\<close> and \<^verbatim>\<open>proxyAddress\<close> is given (truthy)
  and the network file has proxies for the query built from the caller's fields, the
  result is made from the first proxy that \<^verbatim>\<open>getProxies\<close> returns for it:
  \<^verbatim>\<open>contractFullName\<close> is rebuilt from that record's own package and contract,
  \<^verbatim>\<open>address\<close> is the record's address, and \<^verbatim>\<open>proxyReference\<close> is the caller's
  \<^verbatim>\<open>proxyAddress\<close> when given, the rebuilt full name otherwise. This holds for every
  \<^verbatim>\<open>toContractFullName\<close> and every network file.
\<close>

theorem proxyInfo_first_match:
  assumes given: "truthy_str (contractAlias contractInfo) \<or> truthy_str (proxyAddress contractInfo)"
    and query: "q = \<lparr> pq_contract = contractAlias contractInfo,
                      pq_address = proxyAddress contractInfo,
                      pq_package = packageName contractInfo \<rparr>"
    and has: "hasProxies (networkFile network) q"
    and first: "getProxies (networkFile network) q = proxy # others"
  shows "proxyInfo toFullName networkFile contractInfo network =
           \<lparr> contractFullName = toFullName (Some (proxy_package proxy)) (Some (proxy_contract proxy)),
             address = Some (proxy_address proxy),
             proxyReference =
               (if truthy_str (proxyAddress contractInfo) then proxyAddress contractInfo
                else toFullName (Some (proxy_package proxy)) (Some (proxy_contract proxy))) \<rparr>"
  using given has first unfolding query proxyInfo_def Let_def str_or_def
  by auto

text \<open>
  The example of the spec: the alias \<^verbatim>\<open>Foo\<close> alone, on a network whose one proxy is
  \<^verbatim>\<open>{package: "local", contract: "Foo", address: "0xAA"}\<close>, in the project \<^verbatim>\<open>local\<close>.
\<close>

theorem proxyInfo_first_match_witness:
  "proxyInfo (toContractFullName ''local'') (\<lambda>network. network_file_of foo_records)
     \<lparr> contractAlias = Some ''Foo'', proxyAddress = None, packageName = None \<rparr> ''mainnet''
   = \<lparr> contractFullName = Some ''Foo'', address = Some ''0xAA'', proxyReference = Some ''Foo'' \<rparr>"
proof -
  let ?ci = "\<lparr> contractAlias = Some ''Foo'', proxyAddress = None, packageName = None \<rparr>"
  let ?q = "\<lparr> pq_contract = contractAlias ?ci, pq_address = proxyAddress ?ci,
               pq_package = packageName ?ci \<rparr>"
  let ?nf = "\<lambda>network::string. network_file_of foo_records"
  have given: "truthy_str (contractAlias ?ci) \<or> truthy_str (proxyAddress ?ci)"
    by (simp add: truthy_str_def)
  have has: "hasProxies (?nf ''mainnet'') ?q"
    by (simp add: network_file_of_def foo_records_def proxy_matches_def)
  have first: "getProxies (?nf ''mainnet'') ?q =
      \<lparr> proxy_package = ''local'', proxy_contract = ''Foo'', proxy_address = ''0xAA'' \<rparr> # []"
    by (simp add: network_file_of_def foo_records_def proxy_matches_def)
  show ?thesis
    using proxyInfo_first_match[OF given refl has first, of "toContractFullName ''local''"]
    by (simp add: toContractFullName_def truthy_str_def)
qed

text \<open>
  C4. When at least one of \<^verbatim>\<open>contractAlias\<close> and \<^verbatim>\<open>proxyAddress\<close> is given and no
  ProxyRecord of the network matches the query built from the caller's fields, the result
  has no address, its \<^verbatim>\<open>contractFullName\<close> is the full name of \<^verbatim>\<open>packageName\<close> and
  \<^verbatim>\<open>contractAlias\<close>, which is the bare alias when the package is absent or is the local
  project's own name and \<^verbatim>\<open>package/alias\<close> otherwise, and its \<^verbatim>\<open>proxyReference\<close> is the
  given \<^verbatim>\<open>proxyAddress\<close> when present, that full name otherwise.
\<close>

theorem proxyInfo_no_match:
  assumes given: "truthy_str (contractAlias contractInfo) \<or> truthy_str (proxyAddress contractInfo)"
    and none: "filter (proxy_matches \<lparr> pq_contract = contractAlias contractInfo,
                      pq_address = proxyAddress contractInfo,
                      pq_package = packageName contractInfo \<rparr>) (records network) = []"
  shows "proxyInfo (toContractFullName localName) (\<lambda>n. network_file_of (records n))
             contractInfo network =
           \<lparr> contractFullName =
               toContractFullName localName (packageName contractInfo) (contractAlias contractInfo),
             address = None,
             proxyReference =
               (if truthy_str (proxyAddress contractInfo) then proxyAddress contractInfo
                else toContractFullName localName (packageName contractInfo)
                       (contractAlias contractInfo)) \<rparr>
         \<and> (\<forall>alias. contractAlias contractInfo = Some alias
              \<and> (packageName contractInfo = None \<or> packageName contractInfo = Some localName)
              \<longrightarrow> toContractFullName localName (packageName contractInfo) (contractAlias contractInfo)
                    = Some alias)
         \<and> (\<forall>alias pkg. contractAlias contractInfo = Some alias
              \<and> packageName contractInfo = Some pkg \<and> pkg \<noteq> localName
              \<longrightarrow> toContractFullName localName (packageName contractInfo) (contractAlias contractInfo)
                    = Some (pkg @ ''/'' @ alias))"
  using given none unfolding proxyInfo_def Let_def str_or_def
  by (auto simp: network_file_of_def toContractFullName_def)

text \<open>
  The example of the claim: alias \<^verbatim>\<open>Bar\<close>, address \<^verbatim>\<open>0xBB\<close>, the package equal to the
  local project \<^verbatim>\<open>local\<close>, and no records.
\<close>

theorem proxyInfo_no_match_witness:
  "proxyInfo (toContractFullName ''local'') (\<lambda>n. network_file_of [])
     \<lparr> contractAlias = Some ''Bar'', proxyAddress = Some ''0xBB'', packageName = Some ''local'' \<rparr>
     ''mainnet''
   = \<lparr> contractFullName = Some ''Bar'', address = None, proxyReference = Some ''0xBB'' \<rparr>"
proof -
  let ?ci = "\<lparr> contractAlias = Some ''Bar'', proxyAddress = Some ''0xBB'',
                packageName = Some ''local'' \<rparr>"
  have given: "truthy_str (contractAlias ?ci) \<or> truthy_str (proxyAddress ?ci)"
    by (simp add: truthy_str_def)
  have none: "filter (proxy_matches \<lparr> pq_contract = contractAlias ?ci,
                      pq_address = proxyAddress ?ci,
                      pq_package = packageName ?ci \<rparr>) ((\<lambda>n::string. []) ''mainnet'') = []"
    by simp
  show ?thesis
    using proxyInfo_no_match[OF given none, of "''local''"]
    by (simp add: toContractFullName_def truthy_str_def)
qed

section \<open>Properties of the catalog builder\<close>










text \<open>
  C7. The \<^verbatim>\<open>all\<close> listing is the section of the build-artifact contracts, labelled
  \<^verbatim>\<open>Local contracts\<close>, followed by one section for each linked dependency, in order,
  labelled with the dependency's name and holding its contract aliases prefixed
  \<^verbatim>\<open>dependencyName/\<close>. A section has its separator in front only when it has at least one
  contract (\<open>choices_section\<close>).
\<close>

theorem contractsList_all:
  "contractsList src name message type (Some ''all'') =
     QuestionObject name
       \<lparr> iq_type = type, iq_message = message,
         iq_choices =
           choices_section ''Local contracts'' (getContractNames src)
           @ concat (map (\<lambda>d. choices_section d (map (\<lambda>c. d @ ''/'' @ c) (contractAliases src d)))
                      (dependencies src)) \<rparr>"
proof -
  have build: "(if length (map Choice (getContractNames src)) > 0
        then Separator '' = Local contracts ='' # map Choice (getContractNames src)
        else map Choice (getContractNames src))
      = choices_section ''Local contracts'' (getContractNames src)"
    by (simp add: choices_section_def)
  have dep: "(\<lambda>d. let cs = map (\<lambda>c. Choice (d @ ''/'' @ c)) (contractAliases src d)
                 in if length cs > 0 then Separator ('' = '' @ d @ '' ='') # cs else cs)
      = (\<lambda>d. choices_section d (map (\<lambda>c. d @ ''/'' @ c) (contractAliases src d)))"
    by (rule ext) (simp add: choices_section_def Let_def comp_def)
  have src_all: "\<not> (\<not> truthy_str (Some ''all'') \<or> Some ''all'' = Some ''fromBuildDir'')"
    "Some ''all'' \<noteq> Some ''fromLocal''"
    by (simp_all add: truthy_str_def)
  show ?thesis
    unfolding contractsList_def inquirerQuestion_def
    by (simp only: Let_def[of "map Choice (getContractNames src)"]
          Let_def[of "map _ (dependencies src)"] Let_def[of "If _ _ _"]
          src_all if_False if_True refl build dep)
qed

text \<open>
  The example of the claim: zero build-artifact contracts and one dependency \<^verbatim>\<open>dep1\<close>
  with the contracts A and B give one \<^verbatim>\<open>dep1\<close> separator, then \<^verbatim>\<open>dep1/A\<close> and
  \<^verbatim>\<open>dep1/B\<close>, and no \<^verbatim>\<open>Local contracts\<close> separator.
\<close>

theorem contractsList_all_witness:
  "contractsList dep1_sources ''contractFullName'' ''Pick a contract'' ''list'' (Some ''all'')
   = QuestionObject ''contractFullName''
       \<lparr> iq_type = ''list'', iq_message = ''Pick a contract'',
         iq_choices = [Separator '' = dep1 ='', Choice ''dep1/A'', Choice ''dep1/B''] \<rparr>"
  using contractsList_all[of dep1_sources "''contractFullName''" "''Pick a contract''" "''list''"]
  by (simp add: choices_section_def dep1_sources_def)

end
